theory Spec2Isabelle
  imports
    Complex_Main
    "HOL-Library.Sublist"
    "HOL-Library.Product_Lexorder"
    "HOL-Library.Option_ord"
    "HOL-Library.Multiset"
begin

section \<open>Strings as the database compares them\<close>

text \<open>
  Strings are lists of ASCII characters. \<open>lower\<close> is Python's \<open>str.lower()\<close> on them.
  The collation of the text columns is part of the schema, which the application does not
  declare; it is a field of the database below. MySQL's default collations are
  case-insensitive.
\<close>

definition lower_char :: "char \<Rightarrow> char" where
  "lower_char c =
     (let n = (of_char c :: nat) in if 65 \<le> n \<and> n \<le> 90 then char_of (n + 32) else c)"

definition lower :: "string \<Rightarrow> string" where
  "lower s = map lower_char s"

datatype collation = Binary | Case_insensitive

fun weight :: "collation \<Rightarrow> char \<Rightarrow> char" where
  "weight Binary c = c"
| "weight Case_insensitive c = lower_char c"

definition weights :: "collation \<Rightarrow> string \<Rightarrow> string" where
  "weights cl s = map (weight cl) s"

text \<open>\<open>a = b\<close> and \<open>a IN (...)\<close> on text columns.\<close>

definition coll_eq :: "collation \<Rightarrow> string \<Rightarrow> string \<Rightarrow> bool" where
  "coll_eq cl a b = (weights cl a = weights cl b)"

definition sql_in :: "collation \<Rightarrow> string \<Rightarrow> string list \<Rightarrow> bool" where
  "sql_in cl a bs = list_ex (coll_eq cl a) bs"

text \<open>
  \<open>subject LIKE pattern\<close>: \<open>%\<close> matches any run of characters, \<open>_\<close> exactly one, and a
  backslash that is not the last character of the pattern makes the character after it
  literal. Literal characters are compared by their collation weight.
\<close>

fun like :: "collation \<Rightarrow> string \<Rightarrow> string \<Rightarrow> bool" where
  "like cl [] s = (s = [])"
| "like cl (p # ps) s =
     (if p = CHR ''%'' then
        (like cl ps s \<or> (case s of [] \<Rightarrow> False | c # t \<Rightarrow> like cl (p # ps) t))
      else if p = CHR ''_'' then
        (case s of [] \<Rightarrow> False | c # t \<Rightarrow> like cl ps t)
      else if p = CHR 0x5C \<and> ps \<noteq> [] then
        (case s of [] \<Rightarrow> False | c # t \<Rightarrow> weight cl (hd ps) = weight cl c \<and> like cl (tl ps) t)
      else
        (case s of [] \<Rightarrow> False | c # t \<Rightarrow> weight cl p = weight cl c \<and> like cl ps t))"

text \<open>The characters with a special meaning in a pattern.\<close>

definition wildcard :: "char \<Rightarrow> bool" where
  "wildcard c = (c = CHR ''%'' \<or> c = CHR ''_'' \<or> c = CHR 0x5C)"

text \<open>
  \<open>s\<close> contains \<open>q\<close> as a substring, characters being compared by their collation
  weight.
\<close>

definition contains :: "collation \<Rightarrow> string \<Rightarrow> string \<Rightarrow> bool" where
  "contains cl q s = sublist (weights cl q) (weights cl s)"

text \<open>\<open>SUBSTRING_INDEX(s, ',', 1)\<close>: the part of \<open>s\<close> before its first comma.\<close>

definition substring_index_comma :: "string \<Rightarrow> string" where
  "substring_index_comma s = takeWhile (\<lambda>c. c \<noteq> CHR '','') s"

section \<open>The tables\<close>

text \<open>
  The \<open>medicines\<close> and \<open>purchase_history\<close> tables, with the columns the statements
  name, in scan order. Ratings, prices and sums are exact decimals, dates are day numbers,
  and no column is \<open>NULL\<close>.
\<close>

record medicine =
  m_id :: int
  m_name :: string
  m_type :: string
  m_treats :: string
  m_rating :: rat
  m_price :: rat
  m_reviews :: int

record purchase =
  ph_id :: int
  ph_user_id :: int
  ph_medicine_id :: int
  ph_quantity :: int
  ph_purchase_date :: int

record database =
  medicines :: "medicine list"
  purchase_history :: "purchase list"
  text_collation :: collation


section \<open>Result rows and data frames\<close>

text \<open>
  A cursor opened with \<open>dictionary=True\<close> returns each row as a dictionary from column
  name to value; a data frame is a list of column names and a list of such rows.
\<close>

datatype cell = Null | IntV int | NumV rat | StrV string | DateV int

type_synonym row = "(string \<times> cell) list"

record frame =
  columns :: "string list"
  rows :: "row list"

definition get :: "row \<Rightarrow> string \<Rightarrow> cell" where
  "get r c = (case map_of r c of None \<Rightarrow> Null | Some v \<Rightarrow> v)"

text \<open>\<open>pd.DataFrame()\<close>\<close>

definition no_frame :: frame where
  "no_frame = \<lparr>columns = [], rows = []\<rparr>"

text \<open>\<open>df.empty\<close>\<close>

definition df_empty :: "frame \<Rightarrow> bool" where
  "df_empty df = (rows df = [] \<or> columns df = [])"

datatype exn = Error string | KeyError string

section \<open>Sorting, grouping and deduplication\<close>

text \<open>
  A stable insertion sort into descending key order. It stands for \<open>ORDER BY ... DESC\<close>,
  where the engine may order ties as it likes, and for \<open>sort_values(ascending=False)\<close>.
\<close>

fun insert_desc :: "('a \<Rightarrow> 'k::linorder) \<Rightarrow> 'a \<Rightarrow> 'a list \<Rightarrow> 'a list" where
  "insert_desc k x [] = [x]"
| "insert_desc k x (y # ys) = (if k x < k y then y # insert_desc k x ys else x # y # ys)"

definition sort_desc :: "('a \<Rightarrow> 'k::linorder) \<Rightarrow> 'a list \<Rightarrow> 'a list" where
  "sort_desc k xs = foldr (insert_desc k) xs []"

text \<open>\<open>GROUP BY\<close>: one group per value of the key, each group in table order.\<close>

definition group_by :: "('a \<Rightarrow> 'k) \<Rightarrow> 'a list \<Rightarrow> 'a list list" where
  "group_by key xs = map (\<lambda>k. filter (\<lambda>x. key x = k) xs) (remdups (map key xs))"

text \<open>One output row per group, computed from the group's first row and the whole group.\<close>

definition per_group :: "('a \<Rightarrow> 'a list \<Rightarrow> 'b) \<Rightarrow> 'a list list \<Rightarrow> 'b list" where
  "per_group f gs = concat (map (\<lambda>g. case g of [] \<Rightarrow> [] | x # _ \<Rightarrow> [f x g]) gs)"

text \<open>\<open>SELECT DISTINCT\<close>: one row per value of the key.\<close>

definition select_distinct :: "('a \<Rightarrow> 'k) \<Rightarrow> 'a list \<Rightarrow> 'a list" where
  "select_distinct key xs = per_group (\<lambda>x g. x) (group_by key xs)"

text \<open>Keeping the first row for every value of the key (\<open>keep='first'\<close>).\<close>

fun keep_first :: "('a \<Rightarrow> 'k) \<Rightarrow> 'k list \<Rightarrow> 'a list \<Rightarrow> 'a list" where
  "keep_first key seen [] = []"
| "keep_first key seen (x # xs) =
     (if key x \<in> set seen then keep_first key seen xs
      else x # keep_first key (key x # seen) xs)"

text \<open>
  The same, said directly: a row stays exactly when no earlier row has its key.
\<close>

fun first_per_key :: "('a \<Rightarrow> 'k) \<Rightarrow> 'a list \<Rightarrow> 'a list" where
  "first_per_key key [] = []"
| "first_per_key key (x # xs) = x # first_per_key key (filter (\<lambda>y. key y \<noteq> key x) xs)"

section \<open>The SQL statements of the application\<close>

text \<open>
  A statement is one of the SQL texts of \<open>app.py\<close> together with the parameters bound to
  its \<open>%s\<close> placeholders, in order. The \<open>IN (...)\<close> lists of the recommendation queries
  have as many placeholders as the parameter lists are long.
\<close>

datatype statement =
    Load_query
  | History_query int
  | Search_medicine_query string string
  | Search_symptom_query string string
  | Search_both_query string string string string
  | Category_query "string list" "string list"
  | Symptom_query "string list" "string list"
  | Popular_query "string list"
  | Other_query string "cell list"

definition medicine_columns :: "string list" where
  "medicine_columns = [''id'', ''name'', ''type'', ''treats'', ''rating'', ''price'', ''reviews'']"

definition medicine_cells :: "medicine \<Rightarrow> row" where
  "medicine_cells m =
     [(''id'', IntV (m_id m)), (''name'', StrV (m_name m)), (''type'', StrV (m_type m)),
      (''treats'', StrV (m_treats m)), (''rating'', NumV (m_rating m)),
      (''price'', NumV (m_price m)), (''reviews'', IntV (m_reviews m))]"

definition purchases_of :: "database \<Rightarrow> int \<Rightarrow> purchase list" where
  "purchases_of db i = filter (\<lambda>p. ph_medicine_id p = i) (purchase_history db)"

text \<open>\<open>... LEFT JOIN purchase_history ph ON m.id = ph.medicine_id\<close>, for one medicine.\<close>

definition left_join_purchases :: "database \<Rightarrow> int \<Rightarrow> purchase option list" where
  "left_join_purchases db i =
     (case purchases_of db i of [] \<Rightarrow> [None] | p # ps \<Rightarrow> map Some (p # ps))"

text \<open>
  Every statement is modelled clause by clause: the rows that \<open>FROM\<close>, the joins and
  \<open>WHERE\<close> produce, the rows that \<open>GROUP BY\<close> and the select list make of them, and the
  frame after \<open>DISTINCT\<close>, \<open>ORDER BY\<close> and \<open>LIMIT\<close>. Text columns are grouped and
  compared by their collation weights.
\<close>

text \<open>\<open>load_medicines_from_db\<close>, lines 85-91.\<close>

definition load_selected :: "database \<Rightarrow> (medicine \<times> int) list" where
  "load_selected db =
     (let cl = text_collation db
      in per_group
           (\<lambda>m g. (m, int (length (remdups (map ph_id (purchases_of db (m_id m)))))))
           (group_by (\<lambda>m. (m_id m, weights cl (m_name m), weights cl (m_type m),
                            weights cl (m_treats m), m_rating m, m_price m, m_reviews m))
              (medicines db)))"

definition load_row :: "medicine \<times> int \<Rightarrow> row" where
  "load_row = (\<lambda>(m, n). medicine_cells m @ [(''purchase_count'', IntV n)])"

definition load_result :: "database \<Rightarrow> frame" where
  "load_result db =
     \<lparr>columns = medicine_columns @ [''purchase_count''],
      rows = map load_row (sort_desc (\<lambda>(m, n). m_rating m) (load_selected db))\<rparr>"

text \<open>\<open>get_user_history\<close>, lines 100-109.\<close>

definition history_joined :: "database \<Rightarrow> int \<Rightarrow> (purchase \<times> medicine) list" where
  "history_joined db uid =
     [(p, m). p \<leftarrow> purchase_history db, m \<leftarrow> medicines db,
              ph_medicine_id p = m_id m, ph_user_id p = uid]"

definition history_selected :: "database \<Rightarrow> int \<Rightarrow> (medicine \<times> int \<times> int) list" where
  "history_selected db uid =
     (let cl = text_collation db
      in per_group
           (\<lambda>(p, m) g. (m, sum_list (map (\<lambda>(q, _). ph_quantity q) g),
                         fold max (map (\<lambda>(q, _). ph_purchase_date q) g) (ph_purchase_date p)))
           (group_by (\<lambda>(p, m). (m_id m, weights cl (m_name m), weights cl (m_type m),
                                 m_rating m, m_price m))
              (history_joined db uid)))"

definition history_row :: "medicine \<times> int \<times> int \<Rightarrow> row" where
  "history_row = (\<lambda>(m, total, latest).
     [(''name'', StrV (m_name m)), (''type'', StrV (m_type m)),
      (''rating'', NumV (m_rating m)), (''price'', NumV (m_price m)),
      (''total_quantity'', NumV (of_int total)),
      (''latest_purchase_date'', DateV latest)])"

definition history_result :: "database \<Rightarrow> int \<Rightarrow> frame" where
  "history_result db uid =
     \<lparr>columns = [''name'', ''type'', ''rating'', ''price'', ''total_quantity'',
                 ''latest_purchase_date''],
      rows = map history_row
               (sort_desc (\<lambda>(m, total, latest). latest) (history_selected db uid))\<rparr>"





text \<open>
  The three search statements, lines 117-151, share their shape: a \<open>CASE\<close> that scores a
  row, a \<open>WHERE\<close> that selects it, and \<open>ORDER BY relevance_score DESC, rating DESC\<close>.
\<close>

definition search_row :: "medicine \<times> int \<Rightarrow> row" where
  "search_row = (\<lambda>(m, sc). medicine_cells m @ [(''relevance_score'', IntV sc)])"

definition search_result :: "database \<Rightarrow> (medicine \<Rightarrow> int) \<Rightarrow> (medicine \<Rightarrow> bool) \<Rightarrow> frame" where
  "search_result db score selected =
     \<lparr>columns = medicine_columns @ [''relevance_score''],
      rows = map search_row
               (sort_desc (\<lambda>(m, sc). (sc, m_rating m))
                  (map (\<lambda>m. (m, score m)) (filter selected (medicines db))))\<rparr>"

text \<open>\<open>category_query\<close>, lines 163-174.\<close>

definition category_joined :: "database \<Rightarrow> string list \<Rightarrow> string list \<Rightarrow> (medicine \<times> medicine \<times> purchase option) list" where
  "category_joined db in_names not_in_names =
     [(m1, m2, ph). m1 \<leftarrow> medicines db, m2 \<leftarrow> medicines db,
                    coll_eq (text_collation db) (m_type m1) (m_type m2),
                    ph \<leftarrow> left_join_purchases db (m_id m2),
                    sql_in (text_collation db) (m_name m1) in_names,
                    \<not> sql_in (text_collation db) (m_name m2) not_in_names]"

definition category_selected :: "database \<Rightarrow> string list \<Rightarrow> string list \<Rightarrow> (string \<times> rat \<times> string \<times> int) list" where
  "category_selected db in_names not_in_names =
     (let cl = text_collation db
      in per_group
           (\<lambda>(m1, m2, ph) g. (m_name m2, m_rating m2, m_type m2,
                               int (length (filter (\<lambda>(a, b, ph'). ph' \<noteq> None) g))))
           (group_by (\<lambda>(m1, m2, ph). (m_id m2, weights cl (m_name m2), m_rating m2,
                                       weights cl (m_type m2)))
              (category_joined db in_names not_in_names)))"

definition category_row :: "string \<times> rat \<times> string \<times> int \<Rightarrow> row" where
  "category_row = (\<lambda>(n, r, t, c).
     [(''name'', StrV n), (''rating'', NumV r), (''type'', StrV t),
      (''popularity_score'', IntV c)])"

definition category_result :: "database \<Rightarrow> string list \<Rightarrow> string list \<Rightarrow> frame" where
  "category_result db in_names not_in_names =
     (let cl = text_collation db
      in \<lparr>columns = [''name'', ''rating'', ''type'', ''popularity_score''],
          rows = map category_row
                   (take 3 (sort_desc (\<lambda>(n, r, t, c). (r, c))
                      (select_distinct (\<lambda>(n, r, t, c). (weights cl n, r, weights cl t, c))
                         (category_selected db in_names not_in_names))))\<rparr>)"

text \<open>\<open>symptom_query\<close>, lines 178-190.\<close>

definition treats_related :: "collation \<Rightarrow> medicine \<Rightarrow> medicine \<Rightarrow> bool" where
  "treats_related cl m1 m2 =
     (like cl (''%'' @ substring_index_comma (m_treats m1) @ ''%'') (m_treats m2) \<or>
      like cl (''%'' @ substring_index_comma (m_treats m2) @ ''%'') (m_treats m1))"

definition symptom_joined :: "database \<Rightarrow> string list \<Rightarrow> string list \<Rightarrow> (medicine \<times> medicine) list" where
  "symptom_joined db in_names not_in_names =
     [(m1, m2). m1 \<leftarrow> medicines db, m2 \<leftarrow> medicines db,
                treats_related (text_collation db) m1 m2,
                sql_in (text_collation db) (m_name m1) in_names,
                \<not> sql_in (text_collation db) (m_name m2) not_in_names]"

definition symptom_selected :: "database \<Rightarrow> string list \<Rightarrow> string list \<Rightarrow> (string \<times> rat \<times> int) list" where
  "symptom_selected db in_names not_in_names =
     map (\<lambda>(m1, m2). (m_name m2, m_rating m2, int (length (purchases_of db (m_id m2)))))
       (symptom_joined db in_names not_in_names)"

definition symptom_row :: "string \<times> rat \<times> int \<Rightarrow> row" where
  "symptom_row = (\<lambda>(n, r, c).
     [(''name'', StrV n), (''rating'', NumV r), (''popularity'', IntV c)])"

definition symptom_result :: "database \<Rightarrow> string list \<Rightarrow> string list \<Rightarrow> frame" where
  "symptom_result db in_names not_in_names =
     (let cl = text_collation db
      in \<lparr>columns = [''name'', ''rating'', ''popularity''],
          rows = map symptom_row
                   (take 3 (sort_desc (\<lambda>(n, r, c). (r, c))
                      (select_distinct (\<lambda>(n, r, c). (weights cl n, r, c))
                         (symptom_selected db in_names not_in_names))))\<rparr>)"

text \<open>\<open>popular_query\<close>, lines 194-203.\<close>

definition popular_joined :: "database \<Rightarrow> string list \<Rightarrow> (medicine \<times> purchase option) list" where
  "popular_joined db not_in_names =
     [(m, ph). m \<leftarrow> medicines db, ph \<leftarrow> left_join_purchases db (m_id m),
               \<not> sql_in (text_collation db) (m_name m) not_in_names]"

definition popular_selected :: "database \<Rightarrow> string list \<Rightarrow> (string \<times> rat \<times> int \<times> int) list" where
  "popular_selected db not_in_names =
     (let cl = text_collation db
      in per_group
           (\<lambda>(m, ph) g. (m_name m, m_rating m, m_reviews m,
                          int (length (filter (\<lambda>(a, ph'). ph' \<noteq> None) g))))
           (group_by (\<lambda>(m, ph). (m_id m, weights cl (m_name m), m_rating m, m_reviews m))
              (popular_joined db not_in_names)))"

definition popular_row :: "string \<times> rat \<times> int \<times> int \<Rightarrow> row" where
  "popular_row = (\<lambda>(n, r, v, c).
     [(''name'', StrV n), (''rating'', NumV r), (''reviews'', IntV v),
      (''purchase_count'', IntV c)])"

definition popular_result :: "database \<Rightarrow> string list \<Rightarrow> frame" where
  "popular_result db not_in_names =
     \<lparr>columns = [''name'', ''rating'', ''reviews'', ''purchase_count''],
      rows = map popular_row
               (take 2 (sort_desc (\<lambda>(n, r, v, c). (c, r)) (popular_selected db not_in_names)))\<rparr>"

text \<open>
  What the server answers to a statement: the result set, or an error message. An empty
  \<open>IN ()\<close> list is a syntax error. The answer to any other SQL text is left to the
  parameter \<open>other\<close>.
\<close>

fun run_sql :: "database \<Rightarrow> (string \<Rightarrow> cell list \<Rightarrow> string + frame) \<Rightarrow> statement \<Rightarrow> string + frame" where
  "run_sql db other Load_query = Inr (load_result db)"
| "run_sql db other (History_query uid) = Inr (history_result db uid)"
| "run_sql db other (Search_medicine_query p1 p2) =
     Inr (search_result db
            (\<lambda>m. if like (text_collation db) p1 (m_name m) then 2 else 0)
            (\<lambda>m. like (text_collation db) p2 (m_name m)))"
| "run_sql db other (Search_symptom_query p1 p2) =
     Inr (search_result db
            (\<lambda>m. if like (text_collation db) p1 (m_treats m) then 1 else 0)
            (\<lambda>m. like (text_collation db) p2 (m_treats m)))"
| "run_sql db other (Search_both_query p1 p2 p3 p4) =
     Inr (search_result db
            (\<lambda>m. if like (text_collation db) p1 (m_name m) then 2
                  else if like (text_collation db) p2 (m_treats m) then 1 else 0)
            (\<lambda>m. like (text_collation db) p3 (m_name m) \<or> like (text_collation db) p4 (m_treats m)))"
| "run_sql db other (Category_query in_names not_in_names) =
     (if in_names = [] \<or> not_in_names = [] then Inl ''You have an error in your SQL syntax''
      else Inr (category_result db in_names not_in_names))"
| "run_sql db other (Symptom_query in_names not_in_names) =
     (if in_names = [] \<or> not_in_names = [] then Inl ''You have an error in your SQL syntax''
      else Inr (symptom_result db in_names not_in_names))"
| "run_sql db other (Popular_query not_in_names) =
     (if not_in_names = [] then Inl ''You have an error in your SQL syntax''
      else Inr (popular_result db not_in_names))"
| "run_sql db other (Other_query text params) = other text params"

section \<open>pandas\<close>

text \<open>\<open>df.drop_duplicates(col, keep='first')\<close>: an empty frame is returned as it is.\<close>

definition drop_duplicates :: "string \<Rightarrow> frame \<Rightarrow> exn + frame" where
  "drop_duplicates col df =
     (if df_empty df then Inr df
      else if col \<notin> set (columns df) then Inl (KeyError col)
      else Inr (df\<lparr>rows := keep_first (\<lambda>r. get r col) [] (rows df)\<rparr>))"

fun put :: "string \<Rightarrow> cell \<Rightarrow> row \<Rightarrow> row" where
  "put c v [] = [(c, v)]"
| "put c v ((c', v') # r) = (if c' = c then (c, v) # r else (c', v') # put c v r)"

text \<open>\<open>df.assign(c=v)\<close> with a scalar \<open>v\<close>.\<close>

definition assign :: "string \<Rightarrow> cell \<Rightarrow> frame \<Rightarrow> frame" where
  "assign c v df =
     \<lparr>columns = (if c \<in> set (columns df) then columns df else columns df @ [c]),
      rows = map (put c v) (rows df)\<rparr>"

text \<open>
  \<open>pd.concat(dfs, ignore_index=True)\<close>: the columns are the union of the frames' columns
  in order of appearance, and a row has \<open>NaN\<close> (here \<open>Null\<close>) in the columns its frame
  lacks.
\<close>

definition pd_concat :: "frame list \<Rightarrow> frame" where
  "pd_concat dfs =
     (let cols = keep_first (\<lambda>c. c) [] (concat (map columns dfs))
      in \<lparr>columns = cols,
          rows = map (\<lambda>r. map (\<lambda>c. (c, get r c)) cols) (concat (map rows dfs))\<rparr>)"

text \<open>The numeric value a cell is sorted by; cells without one go last.\<close>

fun number :: "cell \<Rightarrow> rat option" where
  "number (NumV r) = Some r"
| "number (IntV i) = Some (of_int i)"
| "number _ = None"

text \<open>\<open>df.sort_values(by, ascending=False)\<close> on a numeric column.\<close>

definition sort_values_desc :: "string \<Rightarrow> frame \<Rightarrow> exn + frame" where
  "sort_values_desc by df =
     (if by \<notin> set (columns df) then Inl (KeyError by)
      else Inr (df\<lparr>rows := sort_desc (\<lambda>r. number (get r by)) (rows df)\<rparr>))"

definition head :: "nat \<Rightarrow> frame \<Rightarrow> frame" where
  "head n df = df\<lparr>rows := take n (rows df)\<rparr>"

text \<open>\<open>df[c].tolist()\<close>\<close>

definition column_tolist :: "string \<Rightarrow> frame \<Rightarrow> exn + cell list" where
  "column_tolist c df =
     (if c \<in> set (columns df) then Inr (map (\<lambda>r. get r c) (rows df)) else Inl (KeyError c))"

section \<open>The connection, the cache and the screen\<close>

text \<open>
  The outside world is the database and the answers of the server link: what the
  \<open>n\<close>-th call of the driver meets. A session counts the driver calls made so far, holds
  the value cached by \<open>st.cache_resource\<close> for \<open>get_db_connection\<close>, and records the
  driver calls and the messages shown to the user.
\<close>

datatype connection = Connection nat

datatype notice =
    Connected_banner
  | Connection_failed string
  | Troubleshooting
  | Reconnecting
  | Reconnect_failed
  | Query_error string

datatype event =
    Connect
  | Is_connected
  | Ping bool nat nat
  | Run statement
  | Shown notice

record env =
  tables :: database
  other_result :: "string \<Rightarrow> cell list \<Rightarrow> string + frame"
  connect_raises :: "nat \<Rightarrow> string option"
  reports_connected :: "nat \<Rightarrow> bool"
  ping_raises :: "nat \<Rightarrow> string option"
  cursor_raises :: "nat \<Rightarrow> string option"
  now :: "nat \<Rightarrow> string"

record session =
  calls :: nat
  cached :: "connection option option"
  trace :: "event list"

definition driver_call :: "event \<Rightarrow> session \<Rightarrow> session" where
  "driver_call e s = s\<lparr>calls := Suc (calls s), trace := trace s @ [e]\<rparr>"

text \<open>\<open>st.markdown\<close>, \<open>st.error\<close>, \<open>st.warning\<close>, \<open>st.info\<close>\<close>

definition show_notice :: "notice \<Rightarrow> session \<Rightarrow> session" where
  "show_notice n s = s\<lparr>trace := trace s @ [Shown n]\<rparr>"

text \<open>\<open>mysql.connector.connect(**DB_CONFIG)\<close>\<close>

definition connect :: "env \<Rightarrow> session \<Rightarrow> (string + connection) \<times> session" where
  "connect E s =
     ((case connect_raises E (calls s) of Some e \<Rightarrow> Inl e | None \<Rightarrow> Inr (Connection (calls s))),
      driver_call Connect s)"

text \<open>\<open>connection.is_connected()\<close>\<close>

definition is_connected :: "env \<Rightarrow> connection \<Rightarrow> session \<Rightarrow> bool \<times> session" where
  "is_connected E c s = (reports_connected E (calls s), driver_call Is_connected s)"

text \<open>\<open>connection.ping(reconnect, attempts, delay)\<close>\<close>

definition ping :: "env \<Rightarrow> connection \<Rightarrow> bool \<Rightarrow> nat \<Rightarrow> nat \<Rightarrow> session \<Rightarrow> (string + unit) \<times> session" where
  "ping E c reconnect attempts delay s =
     ((case ping_raises E (calls s) of Some e \<Rightarrow> Inl e | None \<Rightarrow> Inr ()),
      driver_call (Ping reconnect attempts delay) s)"

text \<open>
  Lines 72-77: open a dictionary cursor, execute the statement, fetch all rows, read the
  column names, close the cursor and build the frame.
\<close>

definition fetch_frame :: "env \<Rightarrow> connection \<Rightarrow> statement \<Rightarrow> session \<Rightarrow> (string + frame) \<times> session" where
  "fetch_frame E c query s =
     ((case cursor_raises E (calls s) of
         Some e \<Rightarrow> Inl e
       | None \<Rightarrow> run_sql (tables E) (other_result E) query),
      driver_call (Run query) s)"

text \<open>The events a call added to the trace.\<close>

definition new_events :: "session \<Rightarrow> session \<Rightarrow> event list" where
  "new_events s s' = drop (length (trace s)) (trace s')"

text \<open>
  A call of \<open>execute_query\<close> that starts in session \<open>s\<close> with a connection meets a live
  link when the connection reports itself connected, the ping succeeds and the cursor
  raises nothing.
\<close>

definition link_ok :: "env \<Rightarrow> session \<Rightarrow> bool" where
  "link_ok E s =
     (reports_connected E (calls s) \<and> ping_raises E (Suc (calls s)) = None \<and>
      cursor_raises E (Suc (Suc (calls s))) = None)"

section \<open>The functions of app.py\<close>

definition get_db_connection_body :: "env \<Rightarrow> session \<Rightarrow> connection option \<times> session" where
  "get_db_connection_body E s =
     (case connect E s of
        (Inl e, s1) \<Rightarrow> (None, show_notice Troubleshooting (show_notice (Connection_failed e) s1))
      | (Inr c, s1) \<Rightarrow>
          (case is_connected E c s1 of
             (True, s2) \<Rightarrow> (Some c, show_notice Connected_banner s2)
           | (False, s2) \<Rightarrow> (None, s2)))"

text \<open>\<open>@st.cache_resource\<close>: the body runs once, later calls return what it returned.\<close>

definition get_db_connection :: "env \<Rightarrow> session \<Rightarrow> connection option \<times> session" where
  "get_db_connection E s =
     (case cached s of
        Some r \<Rightarrow> (r, s)
      | None \<Rightarrow> (case get_db_connection_body E s of (r, s1) \<Rightarrow> (r, s1\<lparr>cached := Some r\<rparr>)))"

definition run_cursor :: "env \<Rightarrow> connection \<Rightarrow> statement \<Rightarrow> session \<Rightarrow> (exn + frame) \<times> session" where
  "run_cursor E c query s =
     (case fetch_frame E c query s of
        (Inl e, s1) \<Rightarrow> (Inl (Error e), s1)
      | (Inr df, s1) \<Rightarrow> (Inr df, s1))"

text \<open>The \<open>else\<close> branch of lines 65-70, and the cursor after it.\<close>

definition reconnect :: "env \<Rightarrow> statement \<Rightarrow> session \<Rightarrow> (exn + frame) \<times> session" where
  "reconnect E query s =
     (case get_db_connection E (show_notice Reconnecting s) of
        (None, s1) \<Rightarrow> (Inr no_frame, show_notice Reconnect_failed s1)
      | (Some c, s1) \<Rightarrow>
          (case is_connected E c s1 of
             (False, s2) \<Rightarrow> (Inr no_frame, show_notice Reconnect_failed s2)
           | (True, s2) \<Rightarrow> run_cursor E c query s2))"

text \<open>The body of the \<open>try\<close>, lines 63-78.\<close>

definition execute_query_try :: "env \<Rightarrow> connection option \<Rightarrow> statement \<Rightarrow> session \<Rightarrow> (exn + frame) \<times> session" where
  "execute_query_try E connection query s =
     (case connection of
        None \<Rightarrow> reconnect E query s
      | Some c \<Rightarrow>
          (case is_connected E c s of
             (True, s1) \<Rightarrow>
               (case ping E c True 3 1 s1 of
                  (Inl e, s2) \<Rightarrow> (Inl (Error e), s2)
                | (Inr u, s2) \<Rightarrow> run_cursor E c query s2)
           | (False, s1) \<Rightarrow> reconnect E query s1))"

text \<open>\<open>except Error as e\<close>, lines 79-81; any other exception passes through.\<close>

definition execute_query :: "env \<Rightarrow> connection option \<Rightarrow> statement \<Rightarrow> session \<Rightarrow> (exn + frame) \<times> session" where
  "execute_query E connection query s =
     (case execute_query_try E connection query s of
        (Inl (Error e), s1) \<Rightarrow> (Inr no_frame, show_notice (Query_error e) s1)
      | (r, s1) \<Rightarrow> (r, s1))"

definition load_medicines_from_db :: "env \<Rightarrow> connection option \<Rightarrow> session \<Rightarrow> (exn + frame) \<times> session" where
  "load_medicines_from_db E connection s =
     (case execute_query E connection Load_query s of
        (Inl x, s1) \<Rightarrow> (Inl x, s1)
      | (Inr df, s1) \<Rightarrow> ((if \<not> df_empty df then drop_duplicates ''name'' df else Inr df), s1))"


definition search_medicines_db :: "env \<Rightarrow> connection option \<Rightarrow> string \<Rightarrow> string \<Rightarrow> session \<Rightarrow> (exn + frame) \<times> session" where
  "search_medicines_db E connection query search_type s =
     (let query_lower = ''%'' @ lower query @ ''%''
      in if search_type = ''medicine'' then
           execute_query E connection (Search_medicine_query query_lower query_lower) s
         else if search_type = ''symptom'' then
           execute_query E connection (Search_symptom_query query_lower query_lower) s
         else
           execute_query E connection
             (Search_both_query query_lower query_lower query_lower query_lower) s)"

text \<open>
  Lines 332 and 341 of \<open>main\<close>: the options of the select box, and the search type passed
  to \<open>search_medicines_db\<close> for a chosen option.
\<close>

definition search_type_options :: "string list" where
  "search_type_options = [''Both'', ''Medicine Only'', ''Symptoms Only'']"

definition chosen_search_type :: "string \<Rightarrow> string" where
  "chosen_search_type option = map (\<lambda>c. if c = CHR '' '' then CHR ''_'' else c) (lower option)"

text \<open>Lines 207-214: \<open>all_recs\<close>, \<open>unique_recs\<close> and \<open>top_recs\<close>.\<close>

definition all_recs :: "frame \<Rightarrow> frame \<Rightarrow> frame \<Rightarrow> frame" where
  "all_recs category_recs symptom_recs popular_recs =
     pd_concat [assign ''source'' (StrV ''category'') category_recs,
                assign ''source'' (StrV ''symptom'') symptom_recs,
                assign ''source'' (StrV ''popular'') popular_recs]"

definition top_recs :: "frame \<Rightarrow> frame \<Rightarrow> frame \<Rightarrow> exn + frame" where
  "top_recs category_recs symptom_recs popular_recs =
     (case drop_duplicates ''name'' (all_recs category_recs symptom_recs popular_recs) of
        Inl x \<Rightarrow> Inl x
      | Inr deduplicated \<Rightarrow>
          (case sort_values_desc ''rating'' deduplicated of
             Inl x \<Rightarrow> Inl x
           | Inr unique_recs \<Rightarrow> Inr (head 4 unique_recs)))"

text \<open>
  Lines 217-228: the dictionary built from \<open>top_recs\<close>. \<open>float(...)\<close> of a rating is
  kept as the exact number.
\<close>

datatype json = JNone | JNaN | JNum rat | JStr string | JList "json list" | JDict "(string \<times> json) list"

fun json_of :: "cell \<Rightarrow> json" where
  "json_of Null = JNaN"
| "json_of (IntV i) = JNum (of_int i)"
| "json_of (NumV r) = JNum r"
| "json_of (StrV t) = JStr t"
| "json_of (DateV d) = JNum (of_int d)"

definition recommendation_entry :: "frame \<Rightarrow> row \<Rightarrow> exn + json" where
  "recommendation_entry df r =
     (if ''name'' \<notin> set (columns df) then Inl (KeyError ''name'')
      else if ''rating'' \<notin> set (columns df) then Inl (KeyError ''rating'')
      else if ''source'' \<notin> set (columns df) then Inl (KeyError ''source'')
      else Inr (JDict
        [(''name'', json_of (get r ''name'')),
         (''type'', if ''type'' \<in> set (columns df) then json_of (get r ''type'') else JNone),
         (''rating'', case number (get r ''rating'') of None \<Rightarrow> JNaN | Some x \<Rightarrow> JNum x),
         (''source'', json_of (get r ''source''))]))"

fun collect :: "('a \<Rightarrow> exn + 'b) \<Rightarrow> 'a list \<Rightarrow> exn + 'b list" where
  "collect f [] = Inr []"
| "collect f (x # xs) =
     (case f x of
        Inl e \<Rightarrow> Inl e
      | Inr y \<Rightarrow> (case collect f xs of Inl e \<Rightarrow> Inl e | Inr ys \<Rightarrow> Inr (y # ys)))"

definition build_response :: "string list \<Rightarrow> string \<Rightarrow> frame \<Rightarrow> exn + cell list \<times> json" where
  "build_response user_history_names timestamp df =
     (case collect (recommendation_entry df) (rows df) of
        Inl x \<Rightarrow> Inl x
      | Inr entries \<Rightarrow>
          (case column_tolist ''name'' df of
             Inl x \<Rightarrow> Inl x
           | Inr names \<Rightarrow>
               Inr (names,
                    JDict [(''recommendations'', JList entries),
                           (''based_on_history'', JList (map JStr user_history_names)),
                           (''timestamp'', JStr timestamp)])))"


text \<open>
  The history argument is \<open>None\<close> or a list. The parameters of the first two statements
  are the history twice, once for each \<open>IN\<close> list.
\<close>

definition generate_recommendations_db :: "env \<Rightarrow> connection option \<Rightarrow> string list option \<Rightarrow> session \<Rightarrow> (exn + cell list \<times> json) \<times> session" where
  "generate_recommendations_db E connection user_history_names s =
     (case user_history_names of
        None \<Rightarrow> (Inr ([], JDict []), s)
      | Some [] \<Rightarrow> (Inr ([], JDict []), s)
      | Some (h # hs) \<Rightarrow>
          (let names = h # hs; n = length names; params = names @ names
           in case execute_query E connection (Category_query (take n params) (drop n params)) s of
                (Inl x, s1) \<Rightarrow> (Inl x, s1)
              | (Inr category_recs, s1) \<Rightarrow>
           (case execute_query E connection (Symptom_query (take n params) (drop n params)) s1 of
                (Inl x, s2) \<Rightarrow> (Inl x, s2)
              | (Inr symptom_recs, s2) \<Rightarrow>
           (case execute_query E connection (Popular_query names) s2 of
                (Inl x, s3) \<Rightarrow> (Inl x, s3)
              | (Inr popular_recs, s3) \<Rightarrow>
                  ((case top_recs category_recs symptom_recs popular_recs of
                      Inl x \<Rightarrow> Inl x
                    | Inr df \<Rightarrow> build_response names (now E (calls s3)) df), s3)))))"

section \<open>Sample databases and links\<close>

definition sample_db :: database where
  "sample_db =
     \<lparr>medicines =
        [\<lparr>m_id = 1, m_name = ''Aspirin'', m_type = ''Painkiller'',
          m_treats = ''headache, fever'', m_rating = 8, m_price = 5, m_reviews = 10\<rparr>,
         \<lparr>m_id = 2, m_name = ''Ibuprofen'', m_type = ''Painkiller'',
          m_treats = ''headache, inflammation'', m_rating = 9, m_price = 7, m_reviews = 20\<rparr>,
         \<lparr>m_id = 3, m_name = ''Metformin'', m_type = ''Antidiabetic'',
          m_treats = ''diabetes'', m_rating = 7, m_price = 3, m_reviews = 5\<rparr>],
      purchase_history =
        [\<lparr>ph_id = 1, ph_user_id = 1, ph_medicine_id = 1, ph_quantity = 2, ph_purchase_date = 100\<rparr>,
         \<lparr>ph_id = 2, ph_user_id = 1, ph_medicine_id = 1, ph_quantity = 3, ph_purchase_date = 120\<rparr>,
         \<lparr>ph_id = 3, ph_user_id = 2, ph_medicine_id = 3, ph_quantity = 1, ph_purchase_date = 110\<rparr>],
      text_collation = Case_insensitive\<rparr>"

text \<open>A catalog whose only medicine has a backslash in its name.\<close>

definition backslash_medicine :: medicine where
  "backslash_medicine =
     \<lparr>m_id = 1, m_name = ''A'' @ [CHR 0x5C] @ ''B Complex'', m_type = ''Vitamin'',
      m_treats = ''fatigue'', m_rating = 6, m_price = 4, m_reviews = 2\<rparr>"

definition backslash_db :: database where
  "backslash_db =
     \<lparr>medicines = [backslash_medicine], purchase_history = [],
      text_collation = Case_insensitive\<rparr>"

text \<open>
  A link on which every driver call succeeds, one on which every cursor fails, and one on
  which no connection ever reports itself connected.
\<close>

definition steady_link :: "database \<Rightarrow> env" where
  "steady_link db =
     \<lparr>tables = db, other_result = (\<lambda>text params. Inl ''unknown statement''),
      connect_raises = (\<lambda>n. None), reports_connected = (\<lambda>n. True),
      ping_raises = (\<lambda>n. None), cursor_raises = (\<lambda>n. None), now = (\<lambda>n. ''2024-01-01T00:00:00'')\<rparr>"

definition broken_link :: "database \<Rightarrow> env" where
  "broken_link db = (steady_link db)\<lparr>cursor_raises := (\<lambda>n. Some ''Lost connection'')\<rparr>"

definition down_link :: "database \<Rightarrow> env" where
  "down_link db = (steady_link db)\<lparr>reports_connected := (\<lambda>n. False)\<rparr>"

text \<open>
  A link to a reachable server on which the first two driver calls, the checks of an old
  connection, report it as not connected.
\<close>

definition dropped_link :: "database \<Rightarrow> env" where
  "dropped_link db = (steady_link db)\<lparr>reports_connected := (\<lambda>n. 2 \<le> n)\<rparr>"

text \<open>A session in which \<open>get_db_connection\<close> has already returned a connection.\<close>

definition cached_session :: session where
  "cached_session = \<lparr>calls = 0, cached = Some (Some (Connection 0)), trace = []\<rparr>"

definition fresh_session :: session where
  "fresh_session = \<lparr>calls = 0, cached = None, trace = []\<rparr>"

section \<open>Facts about sorting and deduplication\<close>

lemma mset_insert_desc: "mset (insert_desc k x xs) = add_mset x (mset xs)"
  by (induction xs) auto

lemma mset_sort_desc: "mset (sort_desc k xs) = mset xs"
  by (induction xs) (auto simp: sort_desc_def mset_insert_desc)

lemma set_sort_desc: "set (sort_desc k xs) = set xs"
  using mset_sort_desc [of k xs] by (metis set_mset_mset)

lemma length_sort_desc: "length (sort_desc k xs) = length xs"
  using mset_sort_desc [of k xs] by (metis size_mset)

lemma set_insert_desc: "set (insert_desc k x xs) = insert x (set xs)"
  using mset_insert_desc [of k x xs] by (metis set_mset_mset set_mset_add_mset_insert)

lemma descending_insert_desc:
  "sorted_wrt (\<lambda>a b. k b \<le> k a) xs \<Longrightarrow> sorted_wrt (\<lambda>a b. k b \<le> k a) (insert_desc k x xs)"
  by (induction xs) (auto simp: set_insert_desc)

lemma descending_sort_desc: "sorted_wrt (\<lambda>a b. k b \<le> k a) (sort_desc k xs)"
  by (induction xs) (auto simp: sort_desc_def descending_insert_desc)

lemma set_keep_first: "set (keep_first key seen xs) \<subseteq> set xs"
  by (induction xs arbitrary: seen) auto

lemma keys_keep_first: "\<forall>x \<in> set (keep_first key seen xs). key x \<notin> set seen"
proof (induction xs arbitrary: seen)
  case Nil
  show ?case by simp
next
  case (Cons a xs)
  from Cons.IH [of seen] Cons.IH [of "key a # seen"] show ?case by auto
qed

lemma distinct_keep_first: "distinct (map key (keep_first key seen xs))"
proof (induction xs arbitrary: seen)
  case Nil
  show ?case by simp
next
  case (Cons x xs)
  from Cons.IH [of seen] Cons.IH [of "key x # seen"] keys_keep_first [of key "key x # seen" xs]
  show ?case by auto
qed

lemma sorted_wrt_keep_first:
  "sorted_wrt P xs \<Longrightarrow> sorted_wrt P (keep_first key seen xs)"
proof (induction xs arbitrary: seen)
  case Nil
  show ?case by simp
next
  case (Cons x xs)
  then show ?case using set_keep_first [of key _ xs] by auto
qed

lemma keep_first_is_first_per_key:
  "keep_first key seen xs = first_per_key key (filter (\<lambda>x. key x \<notin> set seen) xs)"
proof (induction xs arbitrary: seen)
  case Nil
  show ?case by simp
next
  case (Cons x xs)
  have "filter (\<lambda>y. key y \<noteq> key x) (filter (\<lambda>y. key y \<notin> set seen) xs) =
        filter (\<lambda>y. key y \<notin> set (key x # seen)) xs"
    by (induction xs) auto
  then show ?case using Cons.IH by simp
qed

lemma keep_first_spec: "keep_first key [] xs = first_per_key key xs"
  by (simp add: keep_first_is_first_per_key)

section \<open>execute\_query\<close>

lemma run_cursor_not_KeyError: "fst (run_cursor E c q s) \<noteq> Inl (KeyError k)"
  by (simp add: run_cursor_def split: prod.splits sum.splits)

lemma reconnect_not_KeyError: "fst (reconnect E q s) \<noteq> Inl (KeyError k)"
  using run_cursor_not_KeyError
  by (auto simp add: reconnect_def split: prod.splits sum.splits option.splits bool.splits)

lemma execute_query_try_not_KeyError:
  "fst (execute_query_try E connection q s) \<noteq> Inl (KeyError k)"
proof (cases connection)
  case None
  then show ?thesis by (simp add: execute_query_try_def reconnect_not_KeyError)
next
  case (Some c)
  obtain b s1 where b: "is_connected E c s = (b, s1)" by (cases "is_connected E c s")
  show ?thesis
  proof (cases b)
    case True
    obtain r s2 where p: "ping E c True 3 1 s1 = (r, s2)" by (cases "ping E c True 3 1 s1")
    show ?thesis using Some b True p run_cursor_not_KeyError [of E c q s2 k]
      by (cases r) (simp_all add: execute_query_try_def)
  next
    case False
    then show ?thesis using Some b reconnect_not_KeyError [of E q s1 k]
      by (simp add: execute_query_try_def)
  qed
qed

lemma execute_query_returns: "\<exists>df s'. execute_query E connection q s = (Inr df, s')"
proof (cases "execute_query_try E connection q s")
  case (Pair r s1)
  show ?thesis
  proof (cases r)
    case (Inl x)
    show ?thesis
    proof (cases x)
      case (Error e)
      with Pair Inl show ?thesis by (simp add: execute_query_def)
    next
      case (KeyError k)
      with Pair Inl execute_query_try_not_KeyError [of E connection q s k] show ?thesis by simp
    qed
  next
    case (Inr df)
    with Pair show ?thesis by (simp add: execute_query_def)
  qed
qed

text \<open>
  Claim C3. For every statement, connection and state of the link, \<open>execute_query\<close>
  returns a frame and raises nothing. When the body of its \<open>try\<close> raises a database
  \<open>Error\<close>, the message is shown to the user and the frame returned is the empty
  \<open>pd.DataFrame()\<close>; when the body returns the fetched frame, that frame is returned, and
  it is empty when it has no rows.
\<close>

theorem execute_query_catches_errors:
  "(\<exists>df s'. execute_query E connection q s = (Inr df, s')) \<and>
   (\<forall>e s1. execute_query_try E connection q s = (Inl (Error e), s1) \<longrightarrow>
      execute_query E connection q s = (Inr no_frame, show_notice (Query_error e) s1) \<and>
      df_empty no_frame) \<and>
   (\<forall>df s1. execute_query_try E connection q s = (Inr df, s1) \<longrightarrow>
      execute_query E connection q s = (Inr df, s1) \<and> (rows df = [] \<longrightarrow> df_empty df))"
  using execute_query_returns [of E connection q s]
  by (simp add: execute_query_def df_empty_def no_frame_def)

theorem execute_query_catches_errors_witness:
  "execute_query (broken_link sample_db) (Some (Connection 0)) Load_query fresh_session =
     (Inr no_frame,
      \<lparr>calls = 3, cached = None,
       trace = [Is_connected, Ping True 3 1, Run Load_query,
                Shown (Query_error ''Lost connection'')]\<rparr>)"
proof -
  have t: "execute_query_try (broken_link sample_db) (Some (Connection 0)) Load_query
             fresh_session =
     (Inl (Error ''Lost connection''),
      \<lparr>calls = 3, cached = None, trace = [Is_connected, Ping True 3 1, Run Load_query]\<rparr>)"
    by code_simp
  from execute_query_catches_errors
         [of "broken_link sample_db" "Some (Connection 0)" Load_query fresh_session]
  have "execute_query (broken_link sample_db) (Some (Connection 0)) Load_query fresh_session =
     (Inr no_frame, show_notice (Query_error ''Lost connection'')
        \<lparr>calls = 3, cached = None, trace = [Is_connected, Ping True 3 1, Run Load_query]\<rparr>)"
    using t by blast
  then show ?thesis by (simp add: show_notice_def)
qed


lemma run_cursor_cases:
  "run_cursor E c q s = (r, s1) \<Longrightarrow>
     (\<exists>e. r = Inl (Error e)) \<or>
     (\<exists>df. r = Inr df \<and> run_sql (tables E) (other_result E) q = Inr df)"
  by (auto simp add: run_cursor_def fetch_frame_def split: sum.splits option.splits)

lemma reconnect_cases:
  assumes "reconnect E q s = (r, s1)"
  shows "r = Inr no_frame \<or> (\<exists>e. r = Inl (Error e)) \<or>
     (\<exists>df. r = Inr df \<and> run_sql (tables E) (other_result E) q = Inr df)"
proof -
  obtain r0 s2 where g: "get_db_connection E (show_notice Reconnecting s) = (r0, s2)"
    by (cases "get_db_connection E (show_notice Reconnecting s)")
  show ?thesis
  proof (cases r0)
    case None
    with g assms show ?thesis by (simp add: reconnect_def)
  next
    case (Some c)
    obtain b s3 where b: "is_connected E c s2 = (b, s3)" by (cases "is_connected E c s2")
    show ?thesis
    proof (cases b)
      case True
      with g Some b assms have "run_cursor E c q s3 = (r, s1)" by (simp add: reconnect_def)
      from run_cursor_cases [OF this] show ?thesis by blast
    next
      case False
      with g Some b assms show ?thesis by (simp add: reconnect_def)
    qed
  qed
qed

lemma execute_query_try_cases:
  assumes "execute_query_try E connection q s = (r, s1)"
  shows "r = Inr no_frame \<or> (\<exists>e. r = Inl (Error e)) \<or>
     (\<exists>df. r = Inr df \<and> run_sql (tables E) (other_result E) q = Inr df)"
proof (cases connection)
  case None
  with assms have "reconnect E q s = (r, s1)" by (simp add: execute_query_try_def)
  from reconnect_cases [OF this] show ?thesis .
next
  case (Some c)
  obtain b s2 where b: "is_connected E c s = (b, s2)" by (cases "is_connected E c s")
  show ?thesis
  proof (cases b)
    case True
    obtain p s3 where p: "ping E c True 3 1 s2 = (p, s3)" by (cases "ping E c True 3 1 s2")
    show ?thesis
    proof (cases p)
      case (Inl e)
      with Some b True p assms show ?thesis by (auto simp add: execute_query_try_def)
    next
      case (Inr u)
      with Some b True p assms have "run_cursor E c q s3 = (r, s1)"
        by (simp add: execute_query_try_def)
      from run_cursor_cases [OF this] show ?thesis by blast
    qed
  next
    case False
    with Some b assms have "reconnect E q s2 = (r, s1)" by (simp add: execute_query_try_def)
    from reconnect_cases [OF this] show ?thesis .
  qed
qed

lemma execute_query_cases:
  "fst (execute_query E connection q s) = Inr no_frame \<or>
   (\<exists>df. fst (execute_query E connection q s) = Inr df \<and>
         run_sql (tables E) (other_result E) q = Inr df)"
proof -
  obtain r s1 where t: "execute_query_try E connection q s = (r, s1)"
    by (cases "execute_query_try E connection q s")
  from execute_query_try_cases [OF t] show ?thesis
    using t by (auto simp add: execute_query_def)
qed

lemma execute_query_live:
  assumes "link_ok E s"
  shows "execute_query E (Some c) q s =
     (case run_sql (tables E) (other_result E) q of
        Inl e \<Rightarrow> (Inr no_frame,
                  s\<lparr>calls := calls s + 3,
                    trace := trace s @ [Is_connected, Ping True 3 1, Run q, Shown (Query_error e)]\<rparr>)
      | Inr df \<Rightarrow> (Inr df,
                   s\<lparr>calls := calls s + 3,
                     trace := trace s @ [Is_connected, Ping True 3 1, Run q]\<rparr>))"
  using assms
  by (simp add: link_ok_def execute_query_def execute_query_try_def is_connected_def ping_def
        run_cursor_def fetch_frame_def driver_call_def show_notice_def split: sum.splits)

lemma steady_link_ok: "link_ok (steady_link db) s"
  by (simp add: link_ok_def steady_link_def)

lemma steady_link_tables: "tables (steady_link db) = db"
  by (simp add: steady_link_def)

section \<open>The cached connection\<close>

lemma get_db_connection_cached: "cached s = Some r \<Longrightarrow> get_db_connection E s = (r, s)"
  by (simp add: get_db_connection_def)

lemma get_db_connection_fills_cache:
  "get_db_connection E s = (r, s1) \<Longrightarrow> cached s1 = Some r"
  by (auto simp add: get_db_connection_def split: option.splits prod.splits)

lemma get_db_connection_body_trace:
  "get_db_connection_body E s = (r, s1) \<Longrightarrow>
     \<exists>evs. trace s1 = trace s @ evs \<and> (\<forall>q. Run q \<notin> set evs) \<and> cached s1 = cached s"
  by (auto simp add: get_db_connection_body_def connect_def is_connected_def driver_call_def
        show_notice_def split: option.splits prod.splits sum.splits bool.splits if_splits)

lemma get_db_connection_trace:
  "get_db_connection E s = (r, s1) \<Longrightarrow>
     \<exists>evs. trace s1 = trace s @ evs \<and> (\<forall>q. Run q \<notin> set evs) \<and>
           (cached s \<noteq> None \<longrightarrow> evs = [] \<and> cached s1 = cached s)"
proof (cases "cached s")
  case None
  assume g: "get_db_connection E s = (r, s1)"
  obtain r' s' where b: "get_db_connection_body E s = (r', s')"
    by (cases "get_db_connection_body E s")
  from get_db_connection_body_trace [OF b] g None b show ?thesis
    by (auto simp add: get_db_connection_def)
next
  case (Some a)
  assume "get_db_connection E s = (r, s1)"
  with Some show ?thesis by (simp add: get_db_connection_def)
qed

lemma run_cursor_trace:
  "run_cursor E c q s = (r, s1) \<Longrightarrow> trace s1 = trace s @ [Run q] \<and> cached s1 = cached s"
  by (auto simp add: run_cursor_def fetch_frame_def driver_call_def split: sum.splits option.splits)

lemma new_events_append: "trace s' = trace s @ evs \<Longrightarrow> new_events s s' = evs"
  by (simp add: new_events_def)

lemma reconnect_fails:
  assumes "get_db_connection E (show_notice Reconnecting s) = (r, s2)"
  shows "r = None \<Longrightarrow> reconnect E q s = (Inr no_frame, show_notice Reconnect_failed s2)"
    and "r = Some c \<Longrightarrow> is_connected E c s2 = (False, s3) \<Longrightarrow>
           reconnect E q s = (Inr no_frame, show_notice Reconnect_failed s3)"
    and "r = Some c \<Longrightarrow> is_connected E c s2 = (True, s3) \<Longrightarrow>
           reconnect E q s = run_cursor E c q s3"
  using assms by (simp_all add: reconnect_def)


lemma is_connected_effect:
  "is_connected E c s = (b, s1) \<Longrightarrow>
     trace s1 = trace s @ [Is_connected] \<and> cached s1 = cached s"
  by (auto simp add: is_connected_def driver_call_def)

lemma ping_effect:
  "ping E c rc a d s = (r, s1) \<Longrightarrow> trace s1 = trace s @ [Ping rc a d] \<and> cached s1 = cached s"
  by (auto simp add: ping_def driver_call_def)

lemma show_notice_effect:
  "trace (show_notice n s) = trace s @ [Shown n]" "cached (show_notice n s) = cached s"
  by (simp_all add: show_notice_def)

lemma reconnect_effect:
  assumes "cached s = Some r0" "reconnect E q s = (res, s')"
  shows "\<exists>evs. trace s' = trace s @ evs \<and> Connect \<notin> set evs \<and> cached s' = Some r0"
proof -
  have g: "get_db_connection E (show_notice Reconnecting s) = (r0, show_notice Reconnecting s)"
    using assms(1) by (simp add: get_db_connection_cached show_notice_effect)
  show ?thesis
  proof (cases r0)
    case None
    with g assms(2) have "s' = show_notice Reconnect_failed (show_notice Reconnecting s)"
      by (simp add: reconnect_def)
    then show ?thesis using assms(1) by (simp add: show_notice_effect)
  next
    case (Some c)
    obtain b s2 where b: "is_connected E c (show_notice Reconnecting s) = (b, s2)"
      by (cases "is_connected E c (show_notice Reconnecting s)")
    from is_connected_effect [OF b] have t2:
      "trace s2 = trace s @ [Shown Reconnecting, Is_connected]" "cached s2 = Some r0"
      using assms(1) by (simp_all add: show_notice_effect)
    show ?thesis
    proof (cases b)
      case True
      with g Some b assms(2) have "run_cursor E c q s2 = (res, s')"
        by (simp add: reconnect_def)
      from run_cursor_trace [OF this] t2 show ?thesis by simp
    next
      case False
      with g Some b assms(2) have "s' = show_notice Reconnect_failed s2"
        by (simp add: reconnect_def)
      then show ?thesis using t2 by (simp add: show_notice_effect)
    qed
  qed
qed

lemma execute_query_try_effect:
  assumes "cached s = Some r0" "execute_query_try E connection q s = (res, s')"
  shows "\<exists>evs. trace s' = trace s @ evs \<and> Connect \<notin> set evs \<and> cached s' = Some r0"
proof (cases connection)
  case None
  with assms(2) have "reconnect E q s = (res, s')" by (simp add: execute_query_try_def)
  from reconnect_effect [OF assms(1) this] show ?thesis .
next
  case (Some c)
  obtain b s1 where b: "is_connected E c s = (b, s1)" by (cases "is_connected E c s")
  from is_connected_effect [OF b] assms(1) have t1:
    "trace s1 = trace s @ [Is_connected]" "cached s1 = Some r0" by simp_all
  show ?thesis
  proof (cases b)
    case True
    obtain r s2 where p: "ping E c True 3 1 s1 = (r, s2)" by (cases "ping E c True 3 1 s1")
    from ping_effect [OF p] t1 have t2:
      "trace s2 = trace s @ [Is_connected, Ping True 3 1]" "cached s2 = Some r0" by simp_all
    show ?thesis
    proof (cases r)
      case (Inl e)
      with Some b True p assms(2) have "s' = s2" by (simp add: execute_query_try_def)
      with t2 show ?thesis by simp
    next
      case (Inr u)
      with Some b True p assms(2) have "run_cursor E c q s2 = (res, s')"
        by (simp add: execute_query_try_def)
      from run_cursor_trace [OF this] t2 show ?thesis by simp
    qed
  next
    case False
    with Some b assms(2) have "reconnect E q s1 = (res, s')" by (simp add: execute_query_try_def)
    from reconnect_effect [OF t1(2) this] t1 show ?thesis by auto
  qed
qed

lemma execute_query_keeps_cache:
  assumes "cached s = Some r0"
  shows "cached (snd (execute_query E connection q s)) = Some r0 \<and>
         Connect \<notin> set (new_events s (snd (execute_query E connection q s)))"
proof -
  obtain res s1 where t: "execute_query_try E connection q s = (res, s1)"
    by (cases "execute_query_try E connection q s")
  from execute_query_try_effect [OF assms t] obtain evs where
    e: "trace s1 = trace s @ evs" "Connect \<notin> set evs" "cached s1 = Some r0" by blast
  have "snd (execute_query E connection q s) = s1 \<or>
        (\<exists>m. snd (execute_query E connection q s) = show_notice (Query_error m) s1)"
    using t by (auto simp add: execute_query_def split: sum.splits exn.splits)
  then show ?thesis using e by (auto simp add: new_events_def show_notice_effect)
qed

lemma execute_query_pings_first:
  assumes "connection = Some c" "is_connected E c s = (True, s1)"
  shows "\<exists>rest. new_events s (snd (execute_query E connection q s)) =
           Is_connected # Ping True 3 1 # rest"
proof -
  obtain r s2 where p: "ping E c True 3 1 s1 = (r, s2)" by (cases "ping E c True 3 1 s1")
  from ping_effect [OF p] is_connected_effect [OF assms(2)] have t2:
    "trace s2 = trace s @ [Is_connected, Ping True 3 1]" by simp
  obtain res s3 where t: "execute_query_try E connection q s = (res, s3)"
    by (cases "execute_query_try E connection q s")
  have "\<exists>evs. trace s3 = trace s2 @ evs"
  proof (cases r)
    case (Inl e)
    with assms p t show ?thesis by (simp add: execute_query_try_def)
  next
    case (Inr u)
    with assms p t have "run_cursor E c q s2 = (res, s3)" by (simp add: execute_query_try_def)
    from run_cursor_trace [OF this] show ?thesis by simp
  qed
  then obtain evs where e: "trace s3 = trace s2 @ evs" by blast
  have "snd (execute_query E connection q s) = s3 \<or>
        (\<exists>m. snd (execute_query E connection q s) = show_notice (Query_error m) s3)"
    using t by (auto simp add: execute_query_def split: sum.splits exn.splits)
  then show ?thesis using e t2 by (auto simp add: new_events_def show_notice_effect)
qed

lemma execute_query_ping_fails:
  assumes "connection = Some c" "is_connected E c s = (True, s1)"
    "ping E c True 3 1 s1 = (Inl e, s2)"
  shows "execute_query E connection q s = (Inr no_frame, show_notice (Query_error e) s2) \<and>
         (\<forall>q'. Run q' \<notin> set (new_events s (show_notice (Query_error e) s2)))"
proof -
  from ping_effect [OF assms(3)] is_connected_effect [OF assms(2)] have t2:
    "trace s2 = trace s @ [Is_connected, Ping True 3 1]" by simp
  have "execute_query_try E connection q s = (Inl (Error e), s2)"
    using assms by (simp add: execute_query_try_def)
  then have "execute_query E connection q s = (Inr no_frame, show_notice (Query_error e) s2)"
    by (simp add: execute_query_def)
  then show ?thesis using t2 by (simp add: new_events_def show_notice_effect)
qed

lemma execute_query_reconnects:
  assumes "connection = None \<and> s1 = s \<or> (\<exists>c. connection = Some c \<and> is_connected E c s = (False, s1))"
  shows "execute_query E connection q s =
           (case reconnect E q s1 of
              (Inl (Error e), s2) \<Rightarrow> (Inr no_frame, show_notice (Query_error e) s2)
            | (r, s2) \<Rightarrow> (r, s2))"
  using assms by (auto simp add: execute_query_def execute_query_try_def)

lemma trace_after_failed_check:
  assumes "connection = None \<and> s1 = s \<or> (\<exists>c. connection = Some c \<and> is_connected E c s = (False, s1))"
  shows "\<exists>evs. trace s1 = trace s @ evs \<and> (\<forall>q'. Run q' \<notin> set evs)"
  using assms by (auto simp add: is_connected_def driver_call_def)

lemma no_run_after_failed_reconnect:
  assumes "connection = None \<and> s1 = s \<or> (\<exists>c. connection = Some c \<and> is_connected E c s = (False, s1))"
    and "get_db_connection E (show_notice Reconnecting s1) = (r, s2)"
  shows "\<forall>q'. Run q' \<notin> set (new_events s (show_notice Reconnect_failed s2))"
    and "is_connected E c' s2 = (b, s3) \<Longrightarrow>
         \<forall>q'. Run q' \<notin> set (new_events s (show_notice Reconnect_failed s3))"
proof -
  from trace_after_failed_check [OF assms(1)] obtain evs where
    e1: "trace s1 = trace s @ evs" "\<forall>q'. Run q' \<notin> set evs" by blast
  from get_db_connection_trace [OF assms(2)] obtain evs2 where
    e2: "trace s2 = trace (show_notice Reconnecting s1) @ evs2" "\<forall>q'. Run q' \<notin> set evs2" by blast
  have t2: "trace s2 = trace s @ (evs @ [Shown Reconnecting] @ evs2)"
    using e1 e2 by (simp add: show_notice_def)
  show "\<forall>q'. Run q' \<notin> set (new_events s (show_notice Reconnect_failed s2))"
    using t2 e1 e2 by (simp add: new_events_def show_notice_def)
  assume "is_connected E c' s2 = (b, s3)"
  then have "trace s3 = trace s2 @ [Is_connected]"
    by (auto simp add: is_connected_def driver_call_def)
  then show "\<forall>q'. Run q' \<notin> set (new_events s (show_notice Reconnect_failed s3))"
    using t2 e1 e2 by (simp add: new_events_def show_notice_def)
qed

text \<open>
  What \<open>execute_query\<close> does with the connection. \<open>get_db_connection\<close> is cached: once
  it has returned, every later call returns the same connection and does nothing else, and
  \<open>execute_query\<close> neither replaces the cached value nor opens another connection.
  Before executing, \<open>execute_query\<close> checks the connection. If it reports itself
  connected, it is pinged with \<open>reconnect=True, attempts=3, delay=1\<close>, and when the ping
  raises, the empty frame is returned and no statement is executed. Otherwise
  \<open>get_db_connection\<close> is called, and when it yields none, or a connection that does not
  report itself connected, the empty frame is returned and no statement is executed.
\<close>

theorem cached_connection_with_best_effort_reconnect:
  "(\<forall>r. cached s = Some r \<longrightarrow> get_db_connection E s = (r, s)) \<and>
   (\<forall>r s1. get_db_connection E s = (r, s1) \<longrightarrow> get_db_connection E s1 = (r, s1)) \<and>
   (\<forall>r. cached s = Some r \<longrightarrow>
      cached (snd (execute_query E connection q s)) = Some r \<and>
      Connect \<notin> set (new_events s (snd (execute_query E connection q s)))) \<and>
   (\<forall>c s1. connection = Some c \<and> is_connected E c s = (True, s1) \<longrightarrow>
      (\<exists>rest. new_events s (snd (execute_query E connection q s)) =
         Is_connected # Ping True 3 1 # rest) \<and>
      (\<forall>e s2. ping E c True 3 1 s1 = (Inl e, s2) \<longrightarrow>
         execute_query E connection q s = (Inr no_frame, show_notice (Query_error e) s2) \<and>
         (\<forall>q'. Run q' \<notin> set (new_events s (show_notice (Query_error e) s2))))) \<and>
   (\<forall>s1. (connection = None \<and> s1 = s \<or>
          (\<exists>c. connection = Some c \<and> is_connected E c s = (False, s1))) \<longrightarrow>
      (\<forall>r s2. get_db_connection E (show_notice Reconnecting s1) = (r, s2) \<longrightarrow>
         (r = None \<longrightarrow>
            execute_query E connection q s = (Inr no_frame, show_notice Reconnect_failed s2) \<and>
            (\<forall>q'. Run q' \<notin> set (new_events s (show_notice Reconnect_failed s2)))) \<and>
         (\<forall>c' s3. r = Some c' \<and> is_connected E c' s2 = (False, s3) \<longrightarrow>
            execute_query E connection q s = (Inr no_frame, show_notice Reconnect_failed s3) \<and>
            (\<forall>q'. Run q' \<notin> set (new_events s (show_notice Reconnect_failed s3))))))"
proof (intro conjI allI impI)
  fix r assume "cached s = Some r"
  then show "get_db_connection E s = (r, s)" by (rule get_db_connection_cached)
next
  fix r s1 assume "get_db_connection E s = (r, s1)"
  then have "cached s1 = Some r" by (rule get_db_connection_fills_cache)
  then show "get_db_connection E s1 = (r, s1)" by (rule get_db_connection_cached)
next
  fix r assume "cached s = Some r"
  from execute_query_keeps_cache [OF this, of E connection q]
  show "cached (snd (execute_query E connection q s)) = Some r" by simp
next
  fix r assume "cached s = Some r"
  from execute_query_keeps_cache [OF this, of E connection q]
  show "Connect \<notin> set (new_events s (snd (execute_query E connection q s)))" by simp
next
  fix c s1 assume "connection = Some c \<and> is_connected E c s = (True, s1)"
  then show "\<exists>rest. new_events s (snd (execute_query E connection q s)) =
         Is_connected # Ping True 3 1 # rest"
    using execute_query_pings_first [of connection c E s s1 q] by simp
next
  fix c s1 e s2
  assume "connection = Some c \<and> is_connected E c s = (True, s1)"
    and "ping E c True 3 1 s1 = (Inl e, s2)"
  then show "execute_query E connection q s = (Inr no_frame, show_notice (Query_error e) s2)"
    using execute_query_ping_fails [of connection c E s s1 e s2 q] by simp
next
  fix c s1 e s2 q'
  assume "connection = Some c \<and> is_connected E c s = (True, s1)"
    and "ping E c True 3 1 s1 = (Inl e, s2)"
  then show "Run q' \<notin> set (new_events s (show_notice (Query_error e) s2))"
    using execute_query_ping_fails [of connection c E s s1 e s2 q] by simp
next
  fix s1 r s2
  assume a: "connection = None \<and> s1 = s \<or> (\<exists>c. connection = Some c \<and> is_connected E c s = (False, s1))"
    and g: "get_db_connection E (show_notice Reconnecting s1) = (r, s2)" and r: "r = None"
  from reconnect_fails(1) [OF g r] have "reconnect E q s1 = (Inr no_frame, show_notice Reconnect_failed s2)" .
  then show "execute_query E connection q s = (Inr no_frame, show_notice Reconnect_failed s2)"
    by (simp add: execute_query_reconnects [OF a])
next
  fix s1 r s2 q'
  assume a: "connection = None \<and> s1 = s \<or> (\<exists>c. connection = Some c \<and> is_connected E c s = (False, s1))"
    and g: "get_db_connection E (show_notice Reconnecting s1) = (r, s2)"
  from no_run_after_failed_reconnect(1) [OF a g]
  show "Run q' \<notin> set (new_events s (show_notice Reconnect_failed s2))" by simp
next
  fix s1 r s2 c' s3
  assume a: "connection = None \<and> s1 = s \<or> (\<exists>c. connection = Some c \<and> is_connected E c s = (False, s1))"
    and g: "get_db_connection E (show_notice Reconnecting s1) = (r, s2)"
    and r: "r = Some c' \<and> is_connected E c' s2 = (False, s3)"
  from reconnect_fails(2) [OF g, of c' s3 q] r
  have "reconnect E q s1 = (Inr no_frame, show_notice Reconnect_failed s3)" by simp
  then show "execute_query E connection q s = (Inr no_frame, show_notice Reconnect_failed s3)"
    by (simp add: execute_query_reconnects [OF a])
next
  fix s1 r s2 c' s3 q'
  assume a: "connection = None \<and> s1 = s \<or> (\<exists>c. connection = Some c \<and> is_connected E c s = (False, s1))"
    and g: "get_db_connection E (show_notice Reconnecting s1) = (r, s2)"
    and r: "r = Some c' \<and> is_connected E c' s2 = (False, s3)"
  from no_run_after_failed_reconnect(2) [OF a g, of c' False s3] r
  show "Run q' \<notin> set (new_events s (show_notice Reconnect_failed s3))" by simp
qed

theorem cached_connection_with_best_effort_reconnect_witness:
  "execute_query (down_link sample_db) (Some (Connection 0)) Load_query fresh_session =
     (Inr no_frame,
      \<lparr>calls = 3, cached = Some None,
       trace = [Is_connected, Shown Reconnecting, Connect, Is_connected,
                Shown Reconnect_failed]\<rparr>) \<and>
   (\<exists>rest. new_events fresh_session
             (snd (execute_query (steady_link sample_db) (Some (Connection 0)) Load_query
                     fresh_session)) =
           Is_connected # Ping True 3 1 # rest)"
proof -
  have c1: "is_connected (down_link sample_db) (Connection 0) fresh_session =
              (False, \<lparr>calls = 1, cached = None, trace = [Is_connected]\<rparr>)"
    by code_simp
  have g: "get_db_connection (down_link sample_db)
             (show_notice Reconnecting \<lparr>calls = 1, cached = None, trace = [Is_connected]\<rparr>) =
           (None, \<lparr>calls = 3, cached = Some None,
                   trace = [Is_connected, Shown Reconnecting, Connect, Is_connected]\<rparr>)"
    by code_simp
  have c2: "is_connected (steady_link sample_db) (Connection 0) fresh_session =
              (True, \<lparr>calls = 1, cached = None, trace = [Is_connected]\<rparr>)"
    by code_simp
  from cached_connection_with_best_effort_reconnect
         [of fresh_session "down_link sample_db" "Some (Connection 0)" Load_query]
  have "execute_query (down_link sample_db) (Some (Connection 0)) Load_query fresh_session =
     (Inr no_frame, show_notice Reconnect_failed
        \<lparr>calls = 3, cached = Some None,
         trace = [Is_connected, Shown Reconnecting, Connect, Is_connected]\<rparr>)"
    using c1 g by blast
  then have a: "execute_query (down_link sample_db) (Some (Connection 0)) Load_query fresh_session =
     (Inr no_frame,
      \<lparr>calls = 3, cached = Some None,
       trace = [Is_connected, Shown Reconnecting, Connect, Is_connected,
                Shown Reconnect_failed]\<rparr>)"
    by (simp add: show_notice_def)
  from cached_connection_with_best_effort_reconnect
         [of fresh_session "steady_link sample_db" "Some (Connection 0)" Load_query]
  have b: "\<exists>rest. new_events fresh_session
             (snd (execute_query (steady_link sample_db) (Some (Connection 0)) Load_query
                     fresh_session)) =
           Is_connected # Ping True 3 1 # rest"
    using c2 by blast
  from a b show ?thesis by simp
qed

text \<open>
  Claim C7 says that a fresh connection is requested when the connection does not report
  itself connected, as the docstring (\<open>Execute SQL query with reconnection\<close>) and the
  warning (\<open>Reconnecting...\<close>) of \<open>execute_query\<close> do. The request goes to the cached
  \<open>get_db_connection\<close>: with the old connection in the cache it is handed back, no
  connection is opened, and the query fails although the server is reachable. With nothing
  cached, the same link gives a new connection and the rows.
\<close>

theorem stale_cached_connection_is_not_replaced:
  "execute_query (dropped_link sample_db) (Some (Connection 0)) Load_query cached_session =
     (Inr no_frame,
      \<lparr>calls = 2, cached = Some (Some (Connection 0)),
       trace = [Is_connected, Shown Reconnecting, Is_connected, Shown Reconnect_failed]\<rparr>) \<and>
   fst (execute_query (dropped_link sample_db) (Some (Connection 0)) Load_query fresh_session) =
     Inr (load_result sample_db) \<and>
   trace (snd (execute_query (dropped_link sample_db) (Some (Connection 0)) Load_query
                 fresh_session)) =
     [Is_connected, Shown Reconnecting, Connect, Is_connected, Shown Connected_banner,
      Is_connected, Run Load_query]"
  by code_simp

section \<open>search\_medicines\_db: the search type\<close>

lemma chosen_options:
  "map chosen_search_type search_type_options = [''both'', ''medicine_only'', ''symptoms_only'']"
  by code_simp

lemma combined_query_otherwise:
  "search_type \<noteq> ''medicine'' \<Longrightarrow> search_type \<noteq> ''symptom'' \<Longrightarrow>
      search_medicines_db E connection query search_type s =
      execute_query E connection
        (Search_both_query (''%'' @ lower query @ ''%'') (''%'' @ lower query @ ''%'')
           (''%'' @ lower query @ ''%'') (''%'' @ lower query @ ''%'')) s"
  by (simp add: search_medicines_db_def Let_def)

text \<open>
  Claim C8. Whenever the search type is neither \<open>medicine\<close> nor \<open>symptom\<close>,
  \<open>search_medicines_db\<close> passes the combined name-or-treats statement to
  \<open>execute_query\<close>. The select box yields \<open>both\<close>, \<open>medicine_only\<close> and
  \<open>symptoms_only\<close>, so every option of the user interface runs the combined statement.
\<close>

theorem other_search_types_run_combined_query:
  "(search_type \<noteq> ''medicine'' \<and> search_type \<noteq> ''symptom'' \<longrightarrow>
      search_medicines_db E connection query search_type s =
      execute_query E connection
        (Search_both_query (''%'' @ lower query @ ''%'') (''%'' @ lower query @ ''%'')
           (''%'' @ lower query @ ''%'') (''%'' @ lower query @ ''%'')) s) \<and>
   map chosen_search_type search_type_options = [''both'', ''medicine_only'', ''symptoms_only''] \<and>
   (\<forall>option \<in> set search_type_options.
      search_medicines_db E connection query (chosen_search_type option) s =
      execute_query E connection
        (Search_both_query (''%'' @ lower query @ ''%'') (''%'' @ lower query @ ''%'')
           (''%'' @ lower query @ ''%'') (''%'' @ lower query @ ''%'')) s)"
proof (intro conjI ballI impI)
  assume "search_type \<noteq> ''medicine'' \<and> search_type \<noteq> ''symptom''"
  then show "search_medicines_db E connection query search_type s =
      execute_query E connection
        (Search_both_query (''%'' @ lower query @ ''%'') (''%'' @ lower query @ ''%'')
           (''%'' @ lower query @ ''%'') (''%'' @ lower query @ ''%'')) s"
    by (simp add: combined_query_otherwise)
next
  show "map chosen_search_type search_type_options = [''both'', ''medicine_only'', ''symptoms_only'']"
    by (rule chosen_options)
next
  fix option assume "option \<in> set search_type_options"
  then have "chosen_search_type option \<in> set (map chosen_search_type search_type_options)"
    by simp
  then have "chosen_search_type option \<in> set [''both'', ''medicine_only'', ''symptoms_only'']"
    by (simp only: chosen_options)
  then have "chosen_search_type option \<noteq> ''medicine'' \<and> chosen_search_type option \<noteq> ''symptom''"
    by auto
  then show "search_medicines_db E connection query (chosen_search_type option) s =
      execute_query E connection
        (Search_both_query (''%'' @ lower query @ ''%'') (''%'' @ lower query @ ''%'')
           (''%'' @ lower query @ ''%'') (''%'' @ lower query @ ''%'')) s"
    by (simp add: combined_query_otherwise)
qed

theorem other_search_types_run_combined_query_witness:
  "search_medicines_db (steady_link sample_db) (Some (Connection 0)) ''aspirin''
     ''medicine_only'' fresh_session =
   execute_query (steady_link sample_db) (Some (Connection 0))
     (Search_both_query ''%aspirin%'' ''%aspirin%'' ''%aspirin%'' ''%aspirin%'') fresh_session \<and>
   chosen_search_type ''Medicine Only'' = ''medicine_only''"
proof -
  have l: "lower ''aspirin'' = ''aspirin''" by code_simp
  have c: "chosen_search_type ''Medicine Only'' = ''medicine_only''" by code_simp
  from other_search_types_run_combined_query
         [of "''medicine_only''" "steady_link sample_db" "Some (Connection 0)" "''aspirin''"
             fresh_session]
  show ?thesis using l c by simp
qed


section \<open>load\_medicines\_from\_db\<close>

lemma load_result_columns: "columns (load_result db) = medicine_columns @ [''purchase_count'']"
  by (simp add: load_result_def)

lemma load_row_rating: "get (load_row (m, n)) ''rating'' = NumV (m_rating m)"
  by (simp add: get_def load_row_def medicine_cells_def)

lemma load_result_descending:
  "sorted_wrt (\<lambda>a b. number (get b ''rating'') \<le> number (get a ''rating''))
     (rows (load_result db))"
proof -
  have "sorted_wrt (\<lambda>a b. (case b of (m, n) \<Rightarrow> m_rating m) \<le> (case a of (m, n) \<Rightarrow> m_rating m))
          (sort_desc (\<lambda>(m, n). m_rating m) (load_selected db))"
    by (rule descending_sort_desc)
  then have "sorted_wrt
      (\<lambda>a b. number (get (load_row b) ''rating'') \<le> number (get (load_row a) ''rating''))
      (sort_desc (\<lambda>(m, n). m_rating m) (load_selected db))"
    by (rule sorted_wrt_mono_rel [rotated]) (auto simp add: load_row_rating)
  then show ?thesis by (simp add: load_result_def sorted_wrt_map)
qed

text \<open>
  Claim C5. \<open>load_medicines_from_db\<close> always returns a frame. Its rows are the rows that
  \<open>execute_query\<close> fetched with every row dropped whose name an earlier row has, so no
  two rows share a name, and they are in descending order of rating.
\<close>

theorem catalog_one_row_per_name_sorted_by_rating:
  "\<exists>df s' fetched.
     load_medicines_from_db E connection s = (Inr df, s') \<and>
     fst (execute_query E connection Load_query s) = Inr fetched \<and>
     rows df = first_per_key (\<lambda>r. get r ''name'') (rows fetched) \<and>
     distinct (map (\<lambda>r. get r ''name'') (rows df)) \<and>
     sorted_wrt (\<lambda>a b. number (get b ''rating'') \<le> number (get a ''rating'')) (rows df)"
proof -
  obtain fetched s' where e: "execute_query E connection Load_query s = (Inr fetched, s')"
    using execute_query_returns [of E connection Load_query s] by blast
  from execute_query_cases [of E connection Load_query s] e
  have f: "fetched = no_frame \<or> fetched = load_result (tables E)" by auto
  have sorted_fetched:
    "sorted_wrt (\<lambda>a b. number (get b ''rating'') \<le> number (get a ''rating'')) (rows fetched)"
    using f load_result_descending [of "tables E"] by (auto simp add: no_frame_def)
  have name_col: "\<not> df_empty fetched \<Longrightarrow> ''name'' \<in> set (columns fetched)"
    using f by (auto simp add: df_empty_def no_frame_def load_result_columns medicine_columns_def)
  define df where
    "df = (if df_empty fetched then fetched
           else fetched\<lparr>rows := keep_first (\<lambda>r. get r ''name'') [] (rows fetched)\<rparr>)"
  have l: "load_medicines_from_db E connection s = (Inr df, s')"
    using e name_col by (simp add: load_medicines_from_db_def drop_duplicates_def df_def)
  have "df_empty fetched \<Longrightarrow> rows fetched = []"
    using f by (auto simp add: df_empty_def no_frame_def load_result_columns medicine_columns_def)
  then have rows_df: "rows df = keep_first (\<lambda>r. get r ''name'') [] (rows fetched)"
    by (simp add: df_def)
  have "rows df = first_per_key (\<lambda>r. get r ''name'') (rows fetched)"
    by (simp add: rows_df keep_first_spec)
  moreover have "distinct (map (\<lambda>r. get r ''name'') (rows df))"
    by (simp add: rows_df distinct_keep_first)
  moreover have "sorted_wrt (\<lambda>a b. number (get b ''rating'') \<le> number (get a ''rating'')) (rows df)"
    by (simp add: rows_df sorted_wrt_keep_first [OF sorted_fetched])
  ultimately show ?thesis using l e by auto
qed

section \<open>The recommendation statements and generate\_recommendations\_db\<close>

lemma group_by_member:
  "g \<in> set (group_by key xs) \<Longrightarrow> \<exists>k. g = filter (\<lambda>x. key x = k) xs"
  by (auto simp add: group_by_def)

lemma per_group_member:
  assumes "y \<in> set (per_group f (group_by key xs))"
  shows "\<exists>x \<in> set xs. y = f x (filter (\<lambda>z. key z = key x) xs)"
proof -
  from assms obtain g where g: "g \<in> set (group_by key xs)"
    and y: "y \<in> set (case g of [] \<Rightarrow> [] | x # _ \<Rightarrow> [f x g])"
    by (auto simp add: per_group_def)
  from y obtain x rest where c: "g = x # rest" "y = f x g" by (cases g) auto
  from group_by_member [OF g] obtain k where k: "g = filter (\<lambda>x. key x = k) xs" by blast
  have "x \<in> set g" using c by simp
  then have "x \<in> set xs" "key x = k" using k by auto
  then show ?thesis using c k by (intro bexI [of _ x]) auto
qed

lemma select_distinct_subset: "set (select_distinct key xs) \<subseteq> set xs"
proof
  fix y assume "y \<in> set (select_distinct key xs)"
  then have "y \<in> set (per_group (\<lambda>x g. x) (group_by key xs))" by (simp add: select_distinct_def)
  from per_group_member [OF this] show "y \<in> set xs" by auto
qed

lemma coll_eq_refl: "coll_eq cl a a"
  by (simp add: coll_eq_def)

lemma sql_in_member: "a \<in> set bs \<Longrightarrow> sql_in cl a bs"
  using coll_eq_refl [of cl a] by (auto simp add: sql_in_def list_ex_iff)



lemma category_joined_excluded:
  "x \<in> set (category_joined db in_names not_in_names) \<Longrightarrow>
     \<not> sql_in (text_collation db) (m_name (fst (snd x))) not_in_names"
  by (auto simp add: category_joined_def split: if_splits)

lemma symptom_joined_excluded:
  "x \<in> set (symptom_joined db in_names not_in_names) \<Longrightarrow>
     \<not> sql_in (text_collation db) (m_name (snd x)) not_in_names"
  by (auto simp add: symptom_joined_def split: if_splits)

lemma popular_joined_excluded:
  "x \<in> set (popular_joined db not_in_names) \<Longrightarrow>
     \<not> sql_in (text_collation db) (m_name (fst x)) not_in_names"
  by (auto simp add: popular_joined_def split: if_splits)


lemma category_selected_excluded:
  assumes "t \<in> set (category_selected db in_names not_in_names)"
  shows "\<not> sql_in (text_collation db) (fst t) not_in_names"
proof -
  from per_group_member [OF assms [unfolded category_selected_def Let_def]]
  obtain x where x: "x \<in> set (category_joined db in_names not_in_names)"
    and t: "fst t = m_name (fst (snd x))"
    by (auto simp add: split_beta)
  then show ?thesis using category_joined_excluded [OF x] by simp
qed

lemma symptom_selected_excluded:
  assumes "t \<in> set (symptom_selected db in_names not_in_names)"
  shows "\<not> sql_in (text_collation db) (fst t) not_in_names"
proof -
  from assms obtain x where x: "x \<in> set (symptom_joined db in_names not_in_names)"
    and t: "fst t = m_name (snd x)"
    by (auto simp add: symptom_selected_def)
  then show ?thesis using symptom_joined_excluded [OF x] by simp
qed

lemma popular_selected_excluded:
  assumes "t \<in> set (popular_selected db not_in_names)"
  shows "\<not> sql_in (text_collation db) (fst t) not_in_names"
proof -
  from per_group_member [OF assms [unfolded popular_selected_def Let_def]]
  obtain x where x: "x \<in> set (popular_joined db not_in_names)"
    and t: "fst t = m_name (fst x)"
    by (auto simp add: split_beta)
  then show ?thesis using popular_joined_excluded [OF x] by simp
qed

lemma category_rows_excluded:
  assumes "r \<in> set (rows (category_result db in_names not_in_names))"
  shows "\<exists>n. get r ''name'' = StrV n \<and> \<not> sql_in (text_collation db) n not_in_names"
proof -
  from assms obtain t where t: "t \<in> set (category_selected db in_names not_in_names)"
    and r: "r = category_row t"
    using select_distinct_subset
    by (fastforce simp add: category_result_def Let_def set_sort_desc dest!: in_set_takeD)
  have "get (category_row t) ''name'' = StrV (fst t)"
    by (simp add: category_row_def get_def split_beta)
  then show ?thesis using r category_selected_excluded [OF t] by simp
qed

lemma symptom_rows_excluded:
  assumes "r \<in> set (rows (symptom_result db in_names not_in_names))"
  shows "\<exists>n. get r ''name'' = StrV n \<and> \<not> sql_in (text_collation db) n not_in_names"
proof -
  from assms obtain t where t: "t \<in> set (symptom_selected db in_names not_in_names)"
    and r: "r = symptom_row t"
    using select_distinct_subset
    by (fastforce simp add: symptom_result_def Let_def set_sort_desc dest!: in_set_takeD)
  have "get (symptom_row t) ''name'' = StrV (fst t)"
    by (simp add: symptom_row_def get_def split_beta)
  then show ?thesis using r symptom_selected_excluded [OF t] by simp
qed

lemma popular_rows_excluded:
  assumes "r \<in> set (rows (popular_result db not_in_names))"
  shows "\<exists>n. get r ''name'' = StrV n \<and> \<not> sql_in (text_collation db) n not_in_names"
proof -
  from assms obtain t where t: "t \<in> set (popular_selected db not_in_names)"
    and r: "r = popular_row t"
    by (fastforce simp add: popular_result_def set_sort_desc dest!: in_set_takeD)
  have "get (popular_row t) ''name'' = StrV (fst t)"
    by (simp add: popular_row_def get_def split_beta)
  then show ?thesis using r popular_selected_excluded [OF t] by simp
qed

lemma get_put_other: "c' \<noteq> c \<Longrightarrow> get (put c v r) c' = get r c'"
  by (induction r) (auto simp add: get_def)

lemma get_reindexed: "c \<in> set cols \<Longrightarrow> get (map (\<lambda>c. (c, get r c)) cols) c = get r c"
proof -
  assume "c \<in> set cols"
  then have "map_of (map (\<lambda>c. (c, get r c)) cols) c = Some (get r c)"
    by (induction cols) auto
  then show ?thesis by (simp add: get_def)
qed




lemma all_recs_names:
  assumes "''name'' \<in> set (columns (all_recs category_recs symptom_recs popular_recs))"
  shows "map (\<lambda>r. get r ''name'') (rows (all_recs category_recs symptom_recs popular_recs)) =
         map (\<lambda>r. get r ''name'') (rows category_recs @ rows symptom_recs @ rows popular_recs)"
proof -
  define cols where "cols = columns (all_recs category_recs symptom_recs popular_recs)"
  have r: "rows (all_recs category_recs symptom_recs popular_recs) =
        map (\<lambda>r. map (\<lambda>c. (c, get r c)) cols)
          (map (put ''source'' (StrV ''category'')) (rows category_recs) @
           map (put ''source'' (StrV ''symptom'')) (rows symptom_recs) @
           map (put ''source'' (StrV ''popular'')) (rows popular_recs))"
    by (simp add: cols_def all_recs_def pd_concat_def assign_def Let_def)
  have k: "get (map (\<lambda>c. (c, get (put ''source'' v r) c)) cols) ''name'' = get r ''name''"
    for v r
    using assms by (simp add: cols_def [symmetric] get_reindexed get_put_other)
  show ?thesis by (simp add: r k comp_def)
qed

lemma drop_duplicates_rows:
  "drop_duplicates c df = Inr d \<Longrightarrow> columns d = columns df \<and> set (rows d) \<subseteq> set (rows df)"
  using set_keep_first [of "\<lambda>r. get r c" "[]" "rows df"]
  by (auto simp add: drop_duplicates_def split: if_splits)

lemma sort_values_desc_rows:
  "sort_values_desc c df = Inr d \<Longrightarrow> columns d = columns df \<and> set (rows d) = set (rows df)"
  by (auto simp add: sort_values_desc_def set_sort_desc split: if_splits)

lemma head_rows: "columns (head n df) = columns df \<and> set (rows (head n df)) \<subseteq> set (rows df)"
  by (auto simp add: head_def dest: in_set_takeD)

lemma top_recs_rows_subset:
  assumes "top_recs category_recs symptom_recs popular_recs = Inr df"
  shows "columns df = columns (all_recs category_recs symptom_recs popular_recs) \<and>
         set (rows df) \<subseteq> set (rows (all_recs category_recs symptom_recs popular_recs))"
proof -
  from assms obtain d u where
    d: "drop_duplicates ''name'' (all_recs category_recs symptom_recs popular_recs) = Inr d"
    and u: "sort_values_desc ''rating'' d = Inr u" and h: "df = head 4 u"
    by (auto simp add: top_recs_def split: sum.splits)
  from drop_duplicates_rows [OF d] sort_values_desc_rows [OF u] head_rows [of 4 u] h
  show ?thesis by auto
qed



lemma build_response_names:
  "build_response hist ts df = Inr (names, response) \<Longrightarrow>
     ''name'' \<in> set (columns df) \<and> names = map (\<lambda>r. get r ''name'') (rows df)"
  by (auto simp add: build_response_def column_tolist_def split: sum.splits if_splits)


lemma sample_recommendations:
  "generate_recommendations_db (steady_link sample_db) (Some (Connection 0)) (Some [''Aspirin''])
     fresh_session =
   (Inr ([StrV ''Ibuprofen'', StrV ''Metformin''],
       JDict
        [(''recommendations'',
          JList
           [JDict
             [(''name'', JStr ''Ibuprofen''),
              (''type'', JStr ''Painkiller''), (''rating'', JNum 9),
              (''source'', JStr ''category'')],
            JDict
             [(''name'', JStr ''Metformin''), (''type'', JNaN),
              (''rating'', JNum 7), (''source'', JStr ''popular'')]]),
         (''based_on_history'', JList [JStr ''Aspirin'']),
         (''timestamp'', JStr ''2024-01-01T00:00:00'')]),
    \<lparr>calls = 9, cached = None,
     trace =
       [Is_connected, Ping True 3 1,
        Run (Category_query [''Aspirin''] [''Aspirin'']), Is_connected,
        Ping True 3 1, Run (Symptom_query [''Aspirin''] [''Aspirin'']),
        Is_connected, Ping True 3 1, Run (Popular_query [''Aspirin''])]\<rparr>)"
  by code_simp

lemma generate_steps:
  assumes "hist \<noteq> []"
    and "execute_query E connection (Category_query hist hist) s = (Inr category_recs, s1)"
    and "execute_query E connection (Symptom_query hist hist) s1 = (Inr symptom_recs, s2)"
    and "execute_query E connection (Popular_query hist) s2 = (Inr popular_recs, s3)"
  shows "generate_recommendations_db E connection (Some hist) s =
     ((case top_recs category_recs symptom_recs popular_recs of
         Inl x \<Rightarrow> Inl x
       | Inr df \<Rightarrow> build_response hist (now E (calls s3)) df), s3)"
proof -
  from assms(1) obtain h hs where h: "hist = h # hs" by (cases hist) auto
  have t: "take (length hist) (hist @ hist) = hist" "drop (length hist) (hist @ hist) = hist"
    by simp_all
  show ?thesis
    using assms(2-4) t unfolding h generate_recommendations_db_def Let_def
    by simp
qed

lemma recommendation_frames:
  assumes "hist \<noteq> []"
  shows "\<exists>category_recs symptom_recs popular_recs s1 s2 s3.
     execute_query E connection (Category_query hist hist) s = (Inr category_recs, s1) \<and>
     execute_query E connection (Symptom_query hist hist) s1 = (Inr symptom_recs, s2) \<and>
     execute_query E connection (Popular_query hist) s2 = (Inr popular_recs, s3) \<and>
     (category_recs = no_frame \<or> category_recs = category_result (tables E) hist hist) \<and>
     (symptom_recs = no_frame \<or> symptom_recs = symptom_result (tables E) hist hist) \<and>
     (popular_recs = no_frame \<or> popular_recs = popular_result (tables E) hist)"
proof -
  obtain c s1 where c: "execute_query E connection (Category_query hist hist) s = (Inr c, s1)"
    using execute_query_returns by blast
  obtain y s2 where y: "execute_query E connection (Symptom_query hist hist) s1 = (Inr y, s2)"
    using execute_query_returns by blast
  obtain p s3 where p: "execute_query E connection (Popular_query hist) s2 = (Inr p, s3)"
    using execute_query_returns by blast
  from execute_query_cases [of E connection "Category_query hist hist" s] c assms
  have c': "c = no_frame \<or> c = category_result (tables E) hist hist" by auto
  from execute_query_cases [of E connection "Symptom_query hist hist" s1] y assms
  have y': "y = no_frame \<or> y = symptom_result (tables E) hist hist" by auto
  from execute_query_cases [of E connection "Popular_query hist" s2] p assms
  have p': "p = no_frame \<or> p = popular_result (tables E) hist" by auto
  from c y p c' y' p' show ?thesis by blast
qed

lemma not_in_history:
  assumes "get r ''name'' = StrV n" "\<not> sql_in cl n hist"
  shows "\<forall>h \<in> set hist. get r ''name'' \<noteq> StrV h"
  using assms sql_in_member [of n hist cl] by auto

lemma query_rows_exclude_history:
  "\<forall>r \<in> set (rows (category_result db hist hist)) \<union> set (rows (symptom_result db hist hist)) \<union>
          set (rows (popular_result db hist)).
     \<forall>h \<in> set hist. get r ''name'' \<noteq> StrV h"
  using category_rows_excluded [of _ db hist hist] symptom_rows_excluded [of _ db hist hist]
    popular_rows_excluded [of _ db hist] not_in_history
  by (metis Un_iff)

lemma generated_names_exclude_history:
  assumes "generate_recommendations_db E connection (Some hist) s = (Inr (names, response), s')"
  shows "\<forall>h \<in> set hist. StrV h \<notin> set names"
proof (cases "hist = []")
  case True
  then show ?thesis by simp
next
  case False
  from recommendation_frames [OF False, of E connection s]
  obtain c y p s1 s2 s3 where
    e: "execute_query E connection (Category_query hist hist) s = (Inr c, s1)"
       "execute_query E connection (Symptom_query hist hist) s1 = (Inr y, s2)"
       "execute_query E connection (Popular_query hist) s2 = (Inr p, s3)"
    and f: "c = no_frame \<or> c = category_result (tables E) hist hist"
       "y = no_frame \<or> y = symptom_result (tables E) hist hist"
       "p = no_frame \<or> p = popular_result (tables E) hist"
    by blast
  have rows_ok: "\<forall>r \<in> set (rows c @ rows y @ rows p). \<forall>h \<in> set hist. get r ''name'' \<noteq> StrV h"
    using f query_rows_exclude_history [of "tables E" hist] by (auto simp add: no_frame_def)
  from generate_steps [OF False e] assms obtain df where
    t: "top_recs c y p = Inr df" and b: "build_response hist (now E (calls s3)) df = Inr (names, response)"
    by (auto split: sum.splits)
  from build_response_names [OF b] have n: "''name'' \<in> set (columns df)"
    "names = map (\<lambda>r. get r ''name'') (rows df)" by simp_all
  from top_recs_rows_subset [OF t] have s: "columns df = columns (all_recs c y p)"
    "set (rows df) \<subseteq> set (rows (all_recs c y p))" by simp_all
  have "set names \<subseteq> set (map (\<lambda>r. get r ''name'') (rows (all_recs c y p)))"
    using n(2) s(2) by auto
  also have "\<dots> = set (map (\<lambda>r. get r ''name'') (rows c @ rows y @ rows p))"
    using all_recs_names [of c y p] n(1) s(1) by simp
  finally have sub: "set names \<subseteq> (\<lambda>r. get r ''name'') ` set (rows c @ rows y @ rows p)"
    by (simp add: image_Un)
  show ?thesis
  proof
    fix h assume h: "h \<in> set hist"
    show "StrV h \<notin> set names"
    proof
      assume "StrV h \<in> set names"
      with sub have "StrV h \<in> (\<lambda>r. get r ''name'') ` set (rows c @ rows y @ rows p)"
        by (rule subsetD)
      then obtain r where r: "r \<in> set (rows c @ rows y @ rows p)" "StrV h = get r ''name''"
        by (rule imageE)
      from rows_ok r(1) h have "get r ''name'' \<noteq> StrV h" by simp
      with r(2) show False by simp
    qed
  qed
qed

text \<open>
  Claim C9. No row of the category, symptom or popular statement carries a name of the
  history, since each statement selects only medicines whose name is \<open>NOT IN\<close> the
  history; and whenever \<open>generate_recommendations_db\<close> returns a list of names, none of
  them is in the history, since concatenating, dropping duplicates, sorting and truncating
  add no row.
\<close>

theorem recommendations_exclude_history:
  "(\<forall>r \<in> set (rows (category_result db hist hist)) \<union> set (rows (symptom_result db hist hist)) \<union>
           set (rows (popular_result db hist)).
      \<forall>h \<in> set hist. get r ''name'' \<noteq> StrV h) \<and>
   (\<forall>names response s'.
      generate_recommendations_db E connection (Some hist) s = (Inr (names, response), s') \<longrightarrow>
      (\<forall>h \<in> set hist. StrV h \<notin> set names))"
  using query_rows_exclude_history [of db hist] generated_names_exclude_history [of E connection hist s]
  by blast

theorem recommendations_exclude_history_witness:
  "\<exists>names response s'.
     generate_recommendations_db (steady_link sample_db) (Some (Connection 0))
       (Some [''Aspirin'']) fresh_session = (Inr (names, response), s') \<and>
     names = [StrV ''Ibuprofen'', StrV ''Metformin''] \<and>
     StrV ''Aspirin'' \<notin> set names"
proof -
  have m: "''Aspirin'' \<in> set [''Aspirin'']" by simp
  from recommendations_exclude_history
         [THEN conjunct2, rule_format, OF sample_recommendations m]
  have "StrV ''Aspirin'' \<notin> set [StrV ''Ibuprofen'', StrV ''Metformin'']" .
  with sample_recommendations show ?thesis by blast
qed







section \<open>LIKE\<close>

lemma like_percent_only: "like cl ''%'' s"
  by (induction s) auto

lemma like_percent:
  "like cl (CHR ''%'' # ps) s \<longleftrightarrow> (\<exists>t. suffix t s \<and> like cl ps t)"
proof (induction s)
  case Nil
  show ?case by simp
next
  case (Cons c s)
  have "like cl (CHR ''%'' # ps) (c # s) \<longleftrightarrow> like cl ps (c # s) \<or> like cl (CHR ''%'' # ps) s"
    by simp
  also have "\<dots> \<longleftrightarrow> like cl ps (c # s) \<or> (\<exists>t. suffix t s \<and> like cl ps t)"
    using Cons.IH by simp
  also have "\<dots> \<longleftrightarrow> (\<exists>t. suffix t (c # s) \<and> like cl ps t)"
    by (auto simp add: suffix_Cons)
  finally show ?case .
qed

lemma like_literal_prefix:
  assumes "\<forall>c \<in> set p. \<not> wildcard c"
  shows "like cl (p @ ''%'') s \<longleftrightarrow> prefix (weights cl p) (weights cl s)"
  using assms
proof (induction p arbitrary: s)
  case Nil
  show ?case using like_percent_only [of cl s] by (simp add: weights_def)
next
  case (Cons a p)
  from Cons.prems have a: "a \<noteq> CHR ''%''" "a \<noteq> CHR ''_''" "a \<noteq> CHR 0x5C"
    and p: "\<forall>c \<in> set p. \<not> wildcard c"
    by (auto simp add: wildcard_def)
  show ?case
  proof (cases s)
    case Nil
    then show ?thesis using a by (simp add: weights_def)
  next
    case (Cons c t)
    then show ?thesis using a Cons.IH [OF p, of t] by (simp add: weights_def)
  qed
qed

lemma like_substring:
  assumes "\<forall>c \<in> set q. \<not> wildcard c"
  shows "like cl (''%'' @ q @ ''%'') s \<longleftrightarrow> contains cl q s"
proof (induction s)
  case Nil
  have "like cl (''%'' @ q @ ''%'') [] \<longleftrightarrow> like cl (q @ ''%'') []" by simp
  also have "\<dots> \<longleftrightarrow> prefix (weights cl q) (weights cl [])"
    by (rule like_literal_prefix [OF assms])
  finally show ?case by (simp add: contains_def weights_def)
next
  case (Cons c s)
  have "like cl (''%'' @ q @ ''%'') (c # s) \<longleftrightarrow>
        like cl (q @ ''%'') (c # s) \<or> like cl (''%'' @ q @ ''%'') s"
    by simp
  also have "\<dots> \<longleftrightarrow> prefix (weights cl q) (weights cl (c # s)) \<or> contains cl q s"
    using like_literal_prefix [OF assms, of cl "c # s"] Cons.IH by simp
  also have "\<dots> \<longleftrightarrow> contains cl q (c # s)"
    by (simp add: contains_def weights_def sublist_Cons_right)
  finally show ?case .
qed

lemma like_positionwise:
  assumes "CHR 0x5C \<notin> set p"
    and "list_all2 (\<lambda>a c. a = CHR ''%'' \<or> a = CHR ''_'' \<or> weight cl a = weight cl c) p s"
    and "like cl q t"
  shows "like cl (p @ q) (s @ t)"
  using assms(2,1)
proof (induction p s rule: list_all2_induct)
  case Nil
  show ?case using assms(3) by simp
next
  case (Cons a p c s)
  from Cons.prems have b: "a \<noteq> CHR 0x5C" "CHR 0x5C \<notin> set p" by auto
  from Cons.IH [OF b(2)] have ih: "like cl (p @ q) (s @ t)" .
  show ?case
  proof (cases "a = CHR ''%''")
    case True
    have "suffix (s @ t) (c # s @ t)" by (simp add: suffix_ConsI)
    with ih have "like cl (CHR ''%'' # p @ q) (c # s @ t)"
      unfolding like_percent by blast
    then show ?thesis using True by simp
  next
    case False
    then show ?thesis using Cons.hyps(1) b(1) ih by auto
  qed
qed

lemma lower_char_idem: "lower_char (lower_char c) = lower_char c"
  unfolding lower_char_def Let_def by (auto simp: of_char_of)

lemma lower_char_backslash: "lower_char c = CHR 0x5C \<Longrightarrow> c = CHR 0x5C"
proof -
  assume a: "lower_char c = CHR 0x5C"
  show ?thesis
  proof (cases "65 \<le> (of_char c :: nat) \<and> (of_char c :: nat) \<le> 90")
    case True
    then have "lower_char c = char_of ((of_char c :: nat) + 32)"
      by (simp add: lower_char_def)
    with a have "(of_char (char_of ((of_char c :: nat) + 32)) :: nat) = of_char (CHR 0x5C)"
      by simp
    then have "((of_char c :: nat) + 32) mod 256 = 92" by (simp add: of_char_of)
    with True show ?thesis by simp
  next
    case False
    with a show ?thesis by (simp add: lower_char_def)
  qed
qed

lemma like_own_name:
  assumes "CHR 0x5C \<notin> set n"
  shows "like Case_insensitive (''%'' @ lower n @ ''%'') n"
proof -
  have b: "CHR 0x5C \<notin> set (lower n)"
  proof
    assume "CHR 0x5C \<in> set (lower n)"
    then obtain c where c: "c \<in> set n" "lower_char c = CHR 0x5C"
      by (auto simp add: lower_def)
    from lower_char_backslash [OF c(2)] c(1) assms show False by simp
  qed
  have r: "list_all2 (\<lambda>a c. a = CHR ''%'' \<or> a = CHR ''_'' \<or>
             weight Case_insensitive a = weight Case_insensitive c) (lower n) n"
    by (simp add: lower_def list_all2_map1 list_all2_same lower_char_idem)
  from like_positionwise [OF b r like_percent_only [of Case_insensitive "[]"]]
  have "like Case_insensitive (lower n @ ''%'') n" by simp
  then have "\<exists>t. suffix t n \<and> like Case_insensitive (lower n @ ''%'') t" by blast
  then have "like Case_insensitive (CHR ''%'' # lower n @ ''%'') n"
    unfolding like_percent .
  then show ?thesis by (simp del: like.simps)
qed

section \<open>search\_medicines\_db: the rows returned\<close>

lemma search_result_member:
  "m \<in> set (medicines db) \<Longrightarrow> selected m \<Longrightarrow>
     search_row (m, score m) \<in> set (rows (search_result db score selected))"
  by (simp add: search_result_def set_sort_desc)

lemma search_medicine_live:
  assumes "link_ok E s" and p: "p = ''%'' @ lower query @ ''%''"
  shows "\<exists>s'. search_medicines_db E (Some c) query ''medicine'' s =
     (Inr (search_result (tables E)
        (\<lambda>m. if like (text_collation (tables E)) p (m_name m) then 2 else 0)
        (\<lambda>m. like (text_collation (tables E)) p (m_name m))), s')"
  unfolding search_medicines_db_def Let_def p [symmetric]
  using execute_query_live [OF assms(1), of c "Search_medicine_query p p"]
  by (simp del: like.simps)

lemma search_both_live:
  assumes "link_ok E s" "search_type \<noteq> ''medicine''" "search_type \<noteq> ''symptom''"
    and p: "p = ''%'' @ lower query @ ''%''"
  shows "\<exists>s'. search_medicines_db E (Some c) query search_type s =
     (Inr (search_result (tables E)
        (\<lambda>m. if like (text_collation (tables E)) p (m_name m) then 2
              else if like (text_collation (tables E)) p (m_treats m) then 1 else 0)
        (\<lambda>m. like (text_collation (tables E)) p (m_name m) \<or>
              like (text_collation (tables E)) p (m_treats m))), s')"
  unfolding search_medicines_db_def Let_def p [symmetric]
  using assms(2,3) execute_query_live [OF assms(1), of c "Search_both_query p p p p"]
  by (simp del: like.simps)

text \<open>
  Claim C1, as the code has it. On a live link and with a case-insensitive collation of the
  name column, for every medicine of the catalog whose name contains no backslash and for
  every search type other than \<open>symptom\<close> (so for \<open>medicine\<close> and \<open>both\<close>), searching
  for the medicine's name returns a frame that contains the medicine's row with relevance
  score 2.
\<close>

theorem search_by_own_name:
  assumes "link_ok E s" "text_collation (tables E) = Case_insensitive"
    and "m \<in> set (medicines (tables E))" "CHR 0x5C \<notin> set (m_name m)"
    and "search_type \<noteq> ''symptom''"
  shows "\<exists>df s'. search_medicines_db E (Some c) (m_name m) search_type s = (Inr df, s') \<and>
                 search_row (m, 2) \<in> set (rows df)"
proof -
  define p where "p = ''%'' @ lower (m_name m) @ ''%''"
  have l: "like (text_collation (tables E)) p (m_name m)"
    using like_own_name [OF assms(4)] assms(2) by (simp add: p_def del: like.simps)
  show ?thesis
  proof (cases "search_type = ''medicine''")
    case True
    have "search_row (m, 2) \<in> set (rows (search_result (tables E)
        (\<lambda>m. if like (text_collation (tables E)) p (m_name m) then 2 else 0)
        (\<lambda>m. like (text_collation (tables E)) p (m_name m))))"
      using search_result_member [of m "tables E"
          "\<lambda>m. like (text_collation (tables E)) p (m_name m)"
          "\<lambda>m. if like (text_collation (tables E)) p (m_name m) then 2 else 0"] assms(3) l
      by (simp del: like.simps)
    then show ?thesis
      using True search_medicine_live [OF assms(1) p_def, of c] by blast
  next
    case False
    have "search_row (m, 2) \<in> set (rows (search_result (tables E)
        (\<lambda>m. if like (text_collation (tables E)) p (m_name m) then 2
              else if like (text_collation (tables E)) p (m_treats m) then 1 else 0)
        (\<lambda>m. like (text_collation (tables E)) p (m_name m) \<or>
              like (text_collation (tables E)) p (m_treats m))))"
      using search_result_member [of m "tables E"
          "\<lambda>m. like (text_collation (tables E)) p (m_name m) \<or>
                like (text_collation (tables E)) p (m_treats m)"
          "\<lambda>m. if like (text_collation (tables E)) p (m_name m) then 2
                else if like (text_collation (tables E)) p (m_treats m) then 1 else 0"]
        assms(3) l
      by (simp del: like.simps)
    then show ?thesis
      using search_both_live [OF assms(1) False assms(5) p_def, of c] by blast
  qed
qed

text \<open>
  Claim C1 as stated, for every medicine row, fails: the name is put into the \<open>LIKE\<close>
  pattern as it is, so a backslash in it escapes the character after it, and the pattern
  made of the name \<open>A\B Complex\<close> matches names that contain \<open>ab complex\<close>, not the
  name itself. Both search types return no row.
\<close>

theorem own_name_search_misses_backslash_name:
  "backslash_medicine \<in> set (medicines backslash_db) \<and>
   fst (search_medicines_db (steady_link backslash_db) (Some (Connection 0))
          (m_name backslash_medicine) ''medicine'' fresh_session) =
     Inr \<lparr>columns = medicine_columns @ [''relevance_score''], rows = []\<rparr> \<and>
   fst (search_medicines_db (steady_link backslash_db) (Some (Connection 0))
          (m_name backslash_medicine) ''both'' fresh_session) =
     Inr \<lparr>columns = medicine_columns @ [''relevance_score''], rows = []\<rparr>"
  by code_simp

theorem search_by_own_name_witness:
  "\<exists>df s'. search_medicines_db (steady_link sample_db) (Some (Connection 0)) ''Aspirin'' ''both''
              fresh_session = (Inr df, s') \<and>
     search_row (\<lparr>m_id = 1, m_name = ''Aspirin'', m_type = ''Painkiller'',
                   m_treats = ''headache, fever'', m_rating = 8, m_price = 5,
                   m_reviews = 10\<rparr>, 2) \<in> set (rows df)"
proof -
  define m where "m = \<lparr>m_id = 1, m_name = ''Aspirin'', m_type = ''Painkiller'',
                   m_treats = ''headache, fever'', m_rating = 8, m_price = 5,
                   m_reviews = 10\<rparr>"
  have a: "text_collation (tables (steady_link sample_db)) = Case_insensitive"
    by (simp add: steady_link_def sample_db_def)
  have b: "m \<in> set (medicines (tables (steady_link sample_db)))"
    by (simp add: steady_link_def sample_db_def m_def)
  have c: "CHR 0x5C \<notin> set (m_name m)" by (simp add: m_def)
  have d: "''both'' \<noteq> ''symptom''" by simp
  from search_by_own_name [OF steady_link_ok [of sample_db fresh_session] a b c d,
         of "Connection 0"]
  show ?thesis by (simp add: m_def)
qed

lemma lower_char_code: 
  "65 \<le> (of_char c :: nat) \<Longrightarrow> (of_char c :: nat) \<le> 90 \<Longrightarrow>
     (of_char (lower_char c) :: nat) = of_char c + 32"
  by (simp add: lower_char_def of_char_of)

lemma lower_char_wildcard: "wildcard (lower_char c) \<Longrightarrow> wildcard c"
proof (cases "65 \<le> (of_char c :: nat) \<and> (of_char c :: nat) \<le> 90")
  case True
  assume w: "wildcard (lower_char c)"
  from True have n: "(of_char (lower_char c) :: nat) = of_char c + 32"
    by (simp add: lower_char_code)
  from w have "(of_char (lower_char c) :: nat) \<in> {37, 95, 92}"
    by (auto simp add: wildcard_def)
  with n True show ?thesis by auto
next
  case False
  assume "wildcard (lower_char c)"
  with False show ?thesis by (auto simp add: lower_char_def Let_def)
qed

lemma lower_no_wildcard:
  assumes "\<forall>ch \<in> set query. \<not> wildcard ch"
  shows "\<forall>ch \<in> set (lower query). \<not> wildcard ch"
  using assms lower_char_wildcard by (auto simp add: lower_def)

lemma mset_map_sort_desc: "mset (map f (sort_desc k xs)) = mset (map f xs)"
proof -
  have "mset (map f (sort_desc k xs)) = image_mset f (mset (sort_desc k xs))"
    by (rule mset_map)
  also have "\<dots> = image_mset f (mset xs)" by (simp only: mset_sort_desc)
  also have "\<dots> = mset (map f xs)" by (rule mset_map [symmetric])
  finally show ?thesis .
qed

text \<open>
  Claim C4, as the code has it. On a live link, for a search type other than \<open>medicine\<close>
  and \<open>symptom\<close> and a query without \<open>%\<close>, \<open>_\<close> and backslash, the rows returned are
  exactly the medicines whose name or treats field contains the lower-cased query as a
  substring, characters being compared as the collation compares them. A row is scored 2
  when the name contains it and 1 otherwise, and the rows are in descending order of
  relevance score and then of rating.
\<close>

theorem combined_search_result:
  assumes "link_ok E s" "search_type \<noteq> ''medicine''" "search_type \<noteq> ''symptom''"
    and "\<forall>ch \<in> set query. \<not> wildcard ch"
  shows "\<exists>s' hits.
     search_medicines_db E (Some c) query search_type s =
       (Inr \<lparr>columns = medicine_columns @ [''relevance_score''], rows = map search_row hits\<rparr>,
        s') \<and>
     mset (map fst hits) =
       mset (filter (\<lambda>m. contains (text_collation (tables E)) (lower query) (m_name m) \<or>
                          contains (text_collation (tables E)) (lower query) (m_treats m))
               (medicines (tables E))) \<and>
     (\<forall>(m, sc) \<in> set hits.
        sc = (if contains (text_collation (tables E)) (lower query) (m_name m) then 2 else 1)) \<and>
     sorted_wrt (\<lambda>a b. (snd b, m_rating (fst b)) \<le> (snd a, m_rating (fst a))) hits"
proof -
  define cl where "cl = text_collation (tables E)"
  define p where "p = ''%'' @ lower query @ ''%''"
  define score :: "medicine \<Rightarrow> int" where
    "score = (\<lambda>m. if like cl p (m_name m) then 2 else if like cl p (m_treats m) then 1 else 0)"
  define sel :: "medicine \<Rightarrow> bool" where
    "sel = (\<lambda>m. like cl p (m_name m) \<or> like cl p (m_treats m))"
  define hits where
    "hits = sort_desc (\<lambda>(m, sc). (sc, m_rating m)) (map (\<lambda>m. (m, score m)) (filter sel (medicines (tables E))))"
  have lk: "like cl p t \<longleftrightarrow> contains cl (lower query) t" for t
    unfolding p_def by (rule like_substring [OF lower_no_wildcard [OF assms(4)]])
  from search_both_live [OF assms(1-3) p_def, of c] obtain s' where
    "search_medicines_db E (Some c) query search_type s =
       (Inr (search_result (tables E) score sel), s')"
    unfolding score_def sel_def cl_def by blast
  then have r: "search_medicines_db E (Some c) query search_type s =
       (Inr \<lparr>columns = medicine_columns @ [''relevance_score''], rows = map search_row hits\<rparr>,
        s')"
    by (simp add: search_result_def hits_def)
  have "mset (map fst hits) =
        mset (map fst (map (\<lambda>m. (m, score m)) (filter sel (medicines (tables E)))))"
    unfolding hits_def by (rule mset_map_sort_desc)
  also have "map fst (map (\<lambda>m. (m, score m)) (filter sel (medicines (tables E)))) =
             filter sel (medicines (tables E))"
    by (simp add: comp_def)
  also have "filter sel (medicines (tables E)) =
      filter (\<lambda>m. contains cl (lower query) (m_name m) \<or> contains cl (lower query) (m_treats m))
        (medicines (tables E))"
    by (simp add: sel_def lk del: like.simps)
  finally have m: "mset (map fst hits) =
      mset (filter (\<lambda>m. contains cl (lower query) (m_name m) \<or>
                         contains cl (lower query) (m_treats m)) (medicines (tables E)))" .
  have sc: "\<forall>(m, sc) \<in> set hits. sc = (if contains cl (lower query) (m_name m) then 2 else 1)"
  proof -
    have "\<forall>x \<in> set hits. \<exists>m. x = (m, score m) \<and> sel m"
      by (auto simp add: hits_def set_sort_desc)
    moreover have "sel m \<Longrightarrow> score m = (if contains cl (lower query) (m_name m) then 2 else 1)"
      for m
      by (auto simp add: sel_def score_def lk simp del: like.simps)
    ultimately show ?thesis by fastforce
  qed
  have "sorted_wrt (\<lambda>a b. (case b of (m, sc) \<Rightarrow> (sc, m_rating m)) \<le> (case a of (m, sc) \<Rightarrow> (sc, m_rating m))) hits"
    unfolding hits_def by (rule descending_sort_desc)
  then have o: "sorted_wrt (\<lambda>a b. (snd b, m_rating (fst b)) \<le> (snd a, m_rating (fst a))) hits"
    by (simp add: split_beta)
  from r m sc o show ?thesis unfolding cl_def by blast
qed

text \<open>
  Claim C4 as stated, for every query, fails: the query is put into the \<open>LIKE\<close> pattern
  as it is, so the query \<open>%\<close> matches every name, and all three medicines are returned
  with score 2 although neither name nor treats of any contains a percent sign.
\<close>

theorem combined_search_treats_percent_as_wildcard:
  "fst (search_medicines_db (steady_link sample_db) (Some (Connection 0)) ''%'' ''both''
          fresh_session) =
     Inr \<lparr>columns = medicine_columns @ [''relevance_score''],
          rows = map search_row
                   [(\<lparr>m_id = 2, m_name = ''Ibuprofen'', m_type = ''Painkiller'',
                      m_treats = ''headache, inflammation'', m_rating = 9, m_price = 7,
                      m_reviews = 20\<rparr>, 2),
                    (\<lparr>m_id = 1, m_name = ''Aspirin'', m_type = ''Painkiller'',
                      m_treats = ''headache, fever'', m_rating = 8, m_price = 5,
                      m_reviews = 10\<rparr>, 2),
                    (\<lparr>m_id = 3, m_name = ''Metformin'', m_type = ''Antidiabetic'',
                      m_treats = ''diabetes'', m_rating = 7, m_price = 3,
                      m_reviews = 5\<rparr>, 2)]\<rparr> \<and>
   \<not> contains Case_insensitive (lower ''%'') ''Ibuprofen'' \<and>
   \<not> contains Case_insensitive (lower ''%'') ''headache, inflammation''"
  by code_simp

theorem combined_search_result_witness:
  "\<exists>s' hits.
     search_medicines_db (steady_link sample_db) (Some (Connection 0)) ''Head'' ''both''
       fresh_session =
       (Inr \<lparr>columns = medicine_columns @ [''relevance_score''], rows = map search_row hits\<rparr>,
        s') \<and>
     mset (map fst hits) =
       mset (filter (\<lambda>m. contains Case_insensitive (lower ''Head'') (m_name m) \<or>
                          contains Case_insensitive (lower ''Head'') (m_treats m))
               (medicines sample_db)) \<and>
     sorted_wrt (\<lambda>a b. (snd b, m_rating (fst b)) \<le> (snd a, m_rating (fst a))) hits"
proof -
  have a: "''both'' \<noteq> ''medicine''" "''both'' \<noteq> ''symptom''" by simp_all
  have w: "\<forall>ch \<in> set ''Head''. \<not> wildcard ch" by (simp add: wildcard_def)
  have t: "tables (steady_link sample_db) = sample_db" by (rule steady_link_tables)
  have cl: "text_collation sample_db = Case_insensitive" by (simp add: sample_db_def)
  from combined_search_result [OF steady_link_ok [of sample_db fresh_session] a w,
         of "Connection 0"]
  show ?thesis unfolding t cl by blast
qed

section \<open>get\_user\_history\<close>












section \<open>generate\_recommendations\_db\<close>

text \<open>
  Claim C10. With no history, \<open>None\<close> or the empty list, \<open>generate_recommendations_db\<close>
  returns the empty list and the empty dictionary, and the session is unchanged: no
  driver call was made and nothing was shown.
\<close>

theorem empty_history_no_query:
  "generate_recommendations_db E connection None s = (Inr ([], JDict []), s) \<and>
   generate_recommendations_db E connection (Some []) s = (Inr ([], JDict []), s)"
  by (simp add: generate_recommendations_db_def)

end
